theory Spec2Isabelle
  imports Main "HOL-Library.AList"
begin

section \<open>Data model\<close>

text \<open>
  The records follow the interfaces of the repository (\<open>TimeSlot\<close>, \<open>BusinessHours\<close>,
  \<open>OrganizationSettings\<close>, \<open>Appointment\<close>) and the in-memory stores of
  \<open>server/routes/organizations.ts\<close> and \<open>server/routes/appointments.ts\<close>.
  Field names carry a short prefix, since \<open>id\<close>, \<open>start\<close> and \<open>end\<close> occur in several
  interfaces and \<open>id\<close> and \<open>end\<close> are taken in Isabelle.
  Numbers of minutes are integers; strings are character lists.
\<close>

record TimeSlot =
  ts_id :: string
  ts_start :: string
  ts_end :: string
  isAvailable :: bool

record BusinessHours =
  day :: string
  bh_start :: string
  bh_end :: string
  isOpen :: bool

record OrganizationSettings =
  businessHours :: "BusinessHours list"
  slotDuration :: int
  breakBetweenSlots :: int

text \<open>The \<open>{start, end}\<close> pairs of a request body and of the booked-slots index.\<close>

record SlotTime =
  st_start :: string
  st_end :: string

datatype AppointmentStatus = pending | confirmed | cancelled

text \<open>
  \<open>ap_date\<close> is the date string the appointment was created from; the source keeps
  \<open>new Date(validatedData.date)\<close> and formats it again when it needs the day.
  \<open>createdAt\<close> (the wall clock) is not modelled.
\<close>

record Appointment =
  ap_id :: string
  organizationId :: string
  organizationName :: string
  individualId :: string
  individualName :: "string option"
  ap_date :: string
  timeSlot :: SlotTime
  status :: AppointmentStatus
  ap_notes :: "string option"
  number :: string

record BookedEntry =
  bk_organizationId :: string
  bk_appointmentId :: string
  bk_timeSlots :: "SlotTime list"

section \<open>The library environment\<close>

text \<open>
  What the handlers obtain from outside the repository: \<open>uuidv4()\<close> and
  \<open>Math.random()\<close> (the \<open>n\<close>-th draw of each), and the calendar functions of
  JavaScript's \<open>Date\<close> and date-fns on date strings, whose result depends on the
  engine and the server's time zone:
  \<^item> \<open>formatEEEE s\<close> is \<open>format(new Date(s), "EEEE")\<close>, the weekday name;
  \<^item> \<open>formatYMD s\<close> is \<open>format(new Date(s), "yyyy-MM-dd")\<close>;
  \<^item> \<open>eachDay a b\<close> is \<open>eachDayOfInterval({start: new Date(a), end: new Date(b)})\<close>,
    each day formatted \<open>yyyy-MM-dd\<close>.
  \<open>None\<close> stands for the \<open>RangeError\<close> these throw on an invalid date or interval.
\<close>

record lib =
  uuidv4 :: "nat \<Rightarrow> string"
  randomNumber :: "nat \<Rightarrow> string"
  formatEEEE :: "string \<Rightarrow> string option"
  formatYMD :: "string \<Rightarrow> string option"
  eachDay :: "string \<Rightarrow> string \<Rightarrow> string list option"

datatype error = RangeError | TypeError | ZodError

section \<open>Times of day\<close>

text \<open>
  \<open>parse(s, "HH:mm", new Date())\<close> yields a time of the current day; it is modelled as
  the number of minutes since that day's midnight, so \<open>addMinutes\<close> is addition and an
  instant of another day is a number outside \<open>0..<1440\<close>. The model assumes a day without
  a clock change. \<open>parseHHmm\<close> reads one or two digits, a colon, one or two digits and
  nothing more, with the hour at most 23 and the minute at most 59; every other string
  is \<open>None\<close>, the Invalid Date.
\<close>

definition digitVal :: "char \<Rightarrow> nat option" where
  "digitVal c = (let n = (of_char c :: nat) in if 48 \<le> n \<and> n \<le> 57 then Some (n - 48) else None)"

fun twoDigits :: "string \<Rightarrow> (nat \<times> string) option" where
  "twoDigits [] = None"
| "twoDigits [a] = (case digitVal a of None \<Rightarrow> None | Some x \<Rightarrow> Some (x, []))"
| "twoDigits (a # b # rest) =
     (case digitVal a of
        None \<Rightarrow> None
      | Some x \<Rightarrow> (case digitVal b of
                     None \<Rightarrow> Some (x, b # rest)
                   | Some y \<Rightarrow> Some (10 * x + y, rest)))"

definition parseHHmm :: "string \<Rightarrow> int option" where
  "parseHHmm s =
     (case twoDigits s of
        None \<Rightarrow> None
      | Some (h, r1) \<Rightarrow>
          if 23 < h then None
          else (case r1 of
                  [] \<Rightarrow> None
                | c # r2 \<Rightarrow>
                    if c \<noteq> CHR '':'' then None
                    else (case twoDigits r2 of
                            None \<Rightarrow> None
                          | Some (m, r3) \<Rightarrow>
                              if 59 < m \<or> r3 \<noteq> [] then None
                              else Some (int (60 * h + m)))))"

definition digitChar :: "nat \<Rightarrow> char" where
  "digitChar n = ''0123456789'' ! (n mod 10)"

definition pad2 :: "nat \<Rightarrow> string" where
  "pad2 n = [digitChar (n div 10), digitChar n]"

text \<open>\<open>format(t, "HH:mm")\<close>: the time of day of the instant \<open>t\<close>.\<close>

definition formatHHmm :: "int \<Rightarrow> string" where
  "formatHHmm t = (let m = nat (t mod 1440) in pad2 (m div 60) @ '':'' @ pad2 (m mod 60))"

definition addMinutes :: "int \<Rightarrow> int \<Rightarrow> int" where
  "addMinutes t n = t + n"

text \<open>
  \<open>isWithinInterval(t, {start, end})\<close> for a valid interval, the start not after the end.
  On any other interval date-fns 2 throws a \<open>RangeError\<close> (date-fns 3 orders the two bounds
  instead); \<open>generateTimeSlots\<close> below checks that once, since the bounds never change in
  the loop, and the theorems on open days assume well-formed times with the opening not
  after the closing.
\<close>

definition isWithinInterval :: "int \<Rightarrow> int \<Rightarrow> int \<Rightarrow> bool" where
  "isWithinInterval t startTime endTime = (startTime \<le> t \<and> t \<le> endTime)"

section \<open>Slot generation\<close>

text \<open>
  The \<open>while\<close> loop of \<open>generateTimeSlots\<close>. \<open>n\<close> counts the uuids drawn so far and
  \<open>slots\<close> is the array built so far. The loop need not end (a step of zero minutes
  never leaves the interval): \<open>None\<close> is the run that does not return.
\<close>

partial_function (option) slotLoop ::
  "lib \<Rightarrow> OrganizationSettings \<Rightarrow> int \<Rightarrow> int \<Rightarrow> int \<Rightarrow> nat \<Rightarrow> TimeSlot list
     \<Rightarrow> (TimeSlot list \<times> nat) option" where
  "slotLoop L orgSettings startTime endTime currentTime n slots =
     (if isWithinInterval currentTime startTime endTime then
        (if isWithinInterval (addMinutes currentTime (slotDuration orgSettings)) startTime endTime
         then slotLoop L orgSettings startTime endTime
                (addMinutes (addMinutes currentTime (slotDuration orgSettings))
                   (breakBetweenSlots orgSettings))
                (Suc n)
                (slots @ [\<lparr>ts_id = uuidv4 L n,
                            ts_start = formatHHmm currentTime,
                            ts_end = formatHHmm (addMinutes currentTime (slotDuration orgSettings)),
                            isAvailable = True\<rparr>])
         else slotLoop L orgSettings startTime endTime
                (addMinutes (addMinutes currentTime (slotDuration orgSettings))
                   (breakBetweenSlots orgSettings))
                n slots)
      else Some (slots, n))"

declare slotLoop.simps [code]

text \<open>
  \<open>generateTimeSlots date orgSettings\<close>, with the number \<open>n\<close> of uuids drawn before the
  call; it returns the slots and the number of uuids drawn after it. The outer \<open>option\<close>
  is \<open>None\<close> when the loop does not return; \<open>Inl\<close> is a thrown error: an invalid date,
  a malformed time, or an opening time after the closing time.
\<close>

definition generateTimeSlots ::
  "lib \<Rightarrow> nat \<Rightarrow> string \<Rightarrow> OrganizationSettings \<Rightarrow> (error + TimeSlot list \<times> nat) option" where
  "generateTimeSlots L n date orgSettings =
     (case formatEEEE L date of
        None \<Rightarrow> Some (Inl RangeError)
      | Some dayOfWeek \<Rightarrow>
          (case find (\<lambda>h. day h = dayOfWeek) (businessHours orgSettings) of
             None \<Rightarrow> Some (Inr ([], n))
           | Some daySettings \<Rightarrow>
               if \<not> isOpen daySettings then Some (Inr ([], n))
               else (case (parseHHmm (bh_start daySettings), parseHHmm (bh_end daySettings)) of
                       (Some startTime, Some endTime) \<Rightarrow>
                         if endTime < startTime then Some (Inl RangeError)
                         else map_option Inr
                                (slotLoop L orgSettings startTime endTime startTime n [])
                     | _ \<Rightarrow> Some (Inl RangeError))))"

text \<open>
  The spec's reading of the loop, used to state what the generator emits: slot \<open>k\<close> starts
  \<open>k\<close> steps of \<open>slotDuration + breakBetweenSlots\<close> minutes after the opening time \<open>t\<close> and
  lasts \<open>slotDuration\<close> minutes; \<open>slotCount\<close> is the number of slots that end by closing time.
\<close>

definition stepMinutes :: "OrganizationSettings \<Rightarrow> int" where
  "stepMinutes orgSettings = slotDuration orgSettings + breakBetweenSlots orgSettings"

definition slotCount :: "OrganizationSettings \<Rightarrow> int \<Rightarrow> int \<Rightarrow> nat" where
  "slotCount orgSettings t endTime =
     (if t + slotDuration orgSettings \<le> endTime
      then nat ((endTime - t - slotDuration orgSettings) div stepMinutes orgSettings) + 1
      else 0)"

definition slotAt :: "lib \<Rightarrow> OrganizationSettings \<Rightarrow> int \<Rightarrow> nat \<Rightarrow> nat \<Rightarrow> TimeSlot" where
  "slotAt L orgSettings t n k =
     \<lparr>ts_id = uuidv4 L (n + k),
      ts_start = formatHHmm (t + int k * stepMinutes orgSettings),
      ts_end = formatHHmm (t + int k * stepMinutes orgSettings + slotDuration orgSettings),
      isAvailable = True\<rparr>"


text \<open>The settings \<open>initializeOrganizationSettings\<close> installs.\<close>

definition defaultSettings :: OrganizationSettings where
  "defaultSettings =
     \<lparr>businessHours =
        [\<lparr>day = ''Monday'', bh_start = ''09:00'', bh_end = ''17:00'', isOpen = True\<rparr>,
         \<lparr>day = ''Tuesday'', bh_start = ''09:00'', bh_end = ''17:00'', isOpen = True\<rparr>,
         \<lparr>day = ''Wednesday'', bh_start = ''09:00'', bh_end = ''17:00'', isOpen = True\<rparr>,
         \<lparr>day = ''Thursday'', bh_start = ''09:00'', bh_end = ''17:00'', isOpen = True\<rparr>,
         \<lparr>day = ''Friday'', bh_start = ''09:00'', bh_end = ''17:00'', isOpen = True\<rparr>,
         \<lparr>day = ''Saturday'', bh_start = ''09:00'', bh_end = ''13:00'', isOpen = False\<rparr>,
         \<lparr>day = ''Sunday'', bh_start = ''09:00'', bh_end = ''13:00'', isOpen = False\<rparr>],
      slotDuration = 30,
      breakBetweenSlots = 0\<rparr>"

section \<open>A concrete environment\<close>

text \<open>
  The environment of the examples: a server whose clock is UTC, reading calendar dates
  written \<open>yyyy-MM-dd\<close> (every other string is an invalid date here), with the \<open>n\<close>-th
  uuid written \<open>uuid-n\<close>.
\<close>

fun decimal :: "nat \<Rightarrow> string" where
  "decimal n = (if n < 10 then [digitChar n] else decimal (n div 10) @ [digitChar n])"

declare decimal.simps [simp del]

fun digitsVal :: "nat \<Rightarrow> string \<Rightarrow> nat option" where
  "digitsVal acc [] = Some acc"
| "digitsVal acc (c # cs) =
     (case digitVal c of None \<Rightarrow> None | Some d \<Rightarrow> digitsVal (10 * acc + d) cs)"

definition isLeapYear :: "nat \<Rightarrow> bool" where
  "isLeapYear y = (y mod 4 = 0 \<and> (y mod 100 \<noteq> 0 \<or> y mod 400 = 0))"

definition daysInMonth :: "nat \<Rightarrow> nat \<Rightarrow> nat" where
  "daysInMonth y m =
     (if m = 2 then (if isLeapYear y then 29 else 28)
      else if m = 4 \<or> m = 6 \<or> m = 9 \<or> m = 11 then 30 else 31)"

definition parseYMD :: "string \<Rightarrow> (nat \<times> nat \<times> nat) option" where
  "parseYMD s =
     (if length s = 10 \<and> s ! 4 = CHR ''-'' \<and> s ! 7 = CHR ''-'' then
        (case (digitsVal 0 (take 4 s), digitsVal 0 (take 2 (drop 5 s)), digitsVal 0 (drop 8 s)) of
           (Some y, Some m, Some d) \<Rightarrow>
             if 1 \<le> m \<and> m \<le> 12 \<and> 1 \<le> d \<and> d \<le> daysInMonth y m then Some (y, m, d) else None
         | _ \<Rightarrow> None)
      else None)"

definition showYMD :: "nat \<times> nat \<times> nat \<Rightarrow> string" where
  "showYMD x = (case x of (y, m, d) \<Rightarrow>
     pad2 (y div 100) @ pad2 (y mod 100) @ ''-'' @ pad2 m @ ''-'' @ pad2 d)"

text \<open>Days since 1 March of year 0 in the Gregorian calendar; that day was a Wednesday.\<close>

definition dayNumber :: "nat \<times> nat \<times> nat \<Rightarrow> nat" where
  "dayNumber x = (case x of (y, m, d) \<Rightarrow>
     (let y' = (if m \<le> 2 then y - 1 else y); m' = (m + 9) mod 12
      in 365 * y' + y' div 4 - y' div 100 + y' div 400 + (153 * m' + 2) div 5 + d - 1))"

definition weekdayName :: "nat \<times> nat \<times> nat \<Rightarrow> string" where
  "weekdayName x =
     [''Monday'', ''Tuesday'', ''Wednesday'', ''Thursday'', ''Friday'', ''Saturday'', ''Sunday'']
       ! ((dayNumber x + 2) mod 7)"

definition nextDay :: "nat \<times> nat \<times> nat \<Rightarrow> nat \<times> nat \<times> nat" where
  "nextDay x = (case x of (y, m, d) \<Rightarrow>
     if d < daysInMonth y m then (y, m, d + 1)
     else if m < 12 then (y, m + 1, 1) else (y + 1, 1, 1))"

fun daysFrom :: "nat \<Rightarrow> nat \<times> nat \<times> nat \<Rightarrow> (nat \<times> nat \<times> nat) list" where
  "daysFrom 0 x = []"
| "daysFrom (Suc k) x = x # daysFrom k (nextDay x)"

definition utcLib :: lib where
  "utcLib =
     \<lparr>uuidv4 = (\<lambda>n. ''uuid-'' @ decimal n),
      randomNumber = (\<lambda>n. decimal (100000 + n mod 900000)),
      formatEEEE = (\<lambda>s. map_option weekdayName (parseYMD s)),
      formatYMD = (\<lambda>s. map_option showYMD (parseYMD s)),
      eachDay = (\<lambda>a b.
        case (parseYMD a, parseYMD b) of
          (Some x, Some y) \<Rightarrow>
            if dayNumber y < dayNumber x then None
            else Some (map showYMD (daysFrom (Suc (dayNumber y - dayNumber x)) x))
        | _ \<Rightarrow> None)\<rparr>"

section \<open>The in-memory stores\<close>

text \<open>
  The module-level objects of the two route files: \<open>settings\<close>, \<open>timeSlots\<close> (per
  organization, per date) and \<open>lockedDays\<close> of \<open>organizations.ts\<close>, \<open>appointments\<close> and
  \<open>bookedSlots\<close> (keyed by date only) of \<open>appointments.ts\<close>. An object used as a dictionary
  is a map; a missing key is \<open>None\<close>, JavaScript's \<open>undefined\<close>. \<open>uuids\<close> and \<open>randoms\<close>
  count the draws made from \<open>uuidv4()\<close> and \<open>Math.random()\<close>.
\<close>

record store =
  settings :: "string \<rightharpoonup> OrganizationSettings"
  timeSlots :: "string \<rightharpoonup> (string \<rightharpoonup> TimeSlot list)"
  lockedDays :: "string \<rightharpoonup> string list"
  appointments :: "Appointment list"
  bookedSlots :: "string \<rightharpoonup> BookedEntry"
  uuids :: nat
  randoms :: nat

definition emptyStore :: store where
  "emptyStore =
     \<lparr>settings = Map.empty, timeSlots = Map.empty, lockedDays = Map.empty,
      appointments = [], bookedSlots = Map.empty, uuids = 0, randoms = 0\<rparr>"

text \<open>\<open>req.user\<close>, as the token middleware decodes it; \<open>None\<close> when there was no token.\<close>

record user =
  u_id :: string
  role :: string
  u_name :: "string option"

text \<open>\<open>req.user?.id\<close> when it is truthy (an empty id is not).\<close>

definition userId :: "user option \<Rightarrow> string option" where
  "userId u = (case u of None \<Rightarrow> None | Some x \<Rightarrow> if u_id x = [] then None else Some (u_id x))"

record DayStatus =
  isLocked :: bool
  availableSlots :: nat
  totalSlots :: nat

text \<open>
  The JSON bodies the handlers send. The list of issues a Zod failure adds to its
  message is left out. \<open>StatusesBody\<close> keeps the keys in insertion order.
\<close>

datatype body =
    Message string
  | SettingsBody OrganizationSettings
  | StatusesBody "(string \<times> DayStatus) list"
  | SlotsBody "TimeSlot list" bool
  | DaySlotsBody string "TimeSlot list" bool
  | LockedBody string bool
  | AppointmentBody Appointment

type_synonym response = "nat \<times> body"

section \<open>Organization routes\<close>

definition initializeOrganizationSettings :: "string \<Rightarrow> store \<Rightarrow> store" where
  "initializeOrganizationSettings orgId st =
     st\<lparr>settings := (settings st)(orgId \<mapsto> defaultSettings),
        lockedDays := (lockedDays st)(orgId \<mapsto> []),
        timeSlots := (timeSlots st)(orgId \<mapsto> Map.empty)\<rparr>"

text \<open>\<open>if (!settings[id]) initializeOrganizationSettings(id)\<close>, as three handlers begin.\<close>

definition ensureSettings :: "string \<Rightarrow> store \<Rightarrow> store" where
  "ensureSettings orgId st =
     (if settings st orgId = None then initializeOrganizationSettings orgId st else st)"

text \<open>\<open>GET /settings\<close>\<close>

definition getSettings :: "user option \<Rightarrow> store \<Rightarrow> response \<times> store" where
  "getSettings u st =
     (case userId u of
        None \<Rightarrow> ((401, Message ''Unauthorized''), st)
      | Some orgId \<Rightarrow>
          (let st1 = ensureSettings orgId st in
           case settings st1 orgId of
             Some s \<Rightarrow> ((200, SettingsBody s), st1)
           | None \<Rightarrow> ((200, Message []), st1)))"

text \<open>
  \<open>settingsSchema.parse\<close> on a body that has the three fields: the two ranges.
\<close>

definition settingsSchema :: "OrganizationSettings \<Rightarrow> bool" where
  "settingsSchema b =
     (15 \<le> slotDuration b \<and> slotDuration b \<le> 120
      \<and> 0 \<le> breakBetweenSlots b \<and> breakBetweenSlots b \<le> 60)"

text \<open>
  \<open>PUT /settings\<close>. The validated body has all three fields of the settings, so the
  spread \<open>{...settings[id], ...validatedData}\<close> is the body.
\<close>

definition putSettings :: "user option \<Rightarrow> OrganizationSettings \<Rightarrow> store \<Rightarrow> response \<times> store" where
  "putSettings u b st =
     (case userId u of
        None \<Rightarrow> ((401, Message ''Unauthorized''), st)
      | Some orgId \<Rightarrow>
          if \<not> settingsSchema b then ((400, Message ''Invalid data''), st)
          else
            (let st1 = ensureSettings orgId st;
                 st2 = st1\<lparr>settings := (settings st1)(orgId \<mapsto> b)\<rparr>;
                 st3 = st2\<lparr>timeSlots := (timeSlots st2)(orgId \<mapsto> Map.empty)\<rparr>
             in ((200, SettingsBody b), st3)))"

text \<open>
  \<open>bookedSlotsForDate.timeSlots.some(b => b.start === slot.start && b.end === slot.end)\<close>
\<close>

definition isBooked :: "SlotTime list \<Rightarrow> TimeSlot \<Rightarrow> bool" where
  "isBooked booked slot =
     list_ex (\<lambda>bookedSlot. st_start bookedSlot = ts_start slot \<and> st_end bookedSlot = ts_end slot) booked"

text \<open>
  The reconciliation both slot reads apply to a day's slots when the booked-slots index
  has an entry for the date: a booked slot becomes unavailable, every other slot is kept.
\<close>

definition markBooked :: "BookedEntry option \<Rightarrow> TimeSlot list \<Rightarrow> TimeSlot list" where
  "markBooked bookedSlotsForDate slots =
     (case bookedSlotsForDate of
        None \<Rightarrow> slots
      | Some entry \<Rightarrow>
          map (\<lambda>slot. if isBooked (bk_timeSlots entry) slot then slot\<lparr>isAvailable := False\<rparr> else slot)
            slots)"

text \<open>
  \<open>generateTimeSlots(date, settings[orgId])\<close> where the settings may be missing: the
  weekday is formatted first, then \<open>orgSettings.businessHours\<close> throws on \<open>undefined\<close>.
\<close>

definition generateFor ::
  "lib \<Rightarrow> nat \<Rightarrow> string \<Rightarrow> OrganizationSettings option \<Rightarrow> (error + TimeSlot list \<times> nat) option" where
  "generateFor L n date orgSettings =
     (case orgSettings of
        Some c \<Rightarrow> generateTimeSlots L n date c
      | None \<Rightarrow> (case formatEEEE L date of
                   None \<Rightarrow> Some (Inl RangeError)
                 | Some _ \<Rightarrow> Some (Inl TypeError)))"

text \<open>
  The body of \<open>days.forEach\<close> in \<open>GET /slots/status\<close> for one day. The slots of the day are
  generated and cached when the cache has none; the booked ones are marked in the cached
  array itself; then the status of the day is computed. What was written to the cache
  stays written when a later statement throws.
\<close>

definition statusDay ::
  "lib \<Rightarrow> string \<Rightarrow> string \<Rightarrow> store \<Rightarrow> ((error + DayStatus) \<times> store) option" where
  "statusDay L orgId dateStr st =
     (case timeSlots st orgId of
        None \<Rightarrow> Some (Inl TypeError, st)
      | Some cache \<Rightarrow>
          (case (case cache dateStr of
                   Some slots \<Rightarrow> Some (Inr (slots, uuids st))
                 | None \<Rightarrow> generateFor L (uuids st) dateStr (settings st orgId)) of
             None \<Rightarrow> None
           | Some (Inl e) \<Rightarrow> Some (Inl e, st)
           | Some (Inr (slots, n)) \<Rightarrow>
               (let daySlots = markBooked (bookedSlots st dateStr) slots;
                    st1 = st\<lparr>timeSlots := (timeSlots st)(orgId \<mapsto> cache(dateStr \<mapsto> daySlots)),
                            uuids := n\<rparr>
                in case lockedDays st1 orgId of
                     None \<Rightarrow> Some (Inl TypeError, st1)
                   | Some locked \<Rightarrow>
                       Some (Inr \<lparr>isLocked = dateStr \<in> set locked,
                                  availableSlots = length (filter isAvailable daySlots),
                                  totalSlots = length daySlots\<rparr>,
                             st1))))"

text \<open>\<open>days.forEach\<close>: the days in order, stopping at the first throw.\<close>

fun statusDays ::
  "lib \<Rightarrow> string \<Rightarrow> string list \<Rightarrow> (string \<times> DayStatus) list \<Rightarrow> store
     \<Rightarrow> ((error + (string \<times> DayStatus) list) \<times> store) option" where
  "statusDays L orgId [] statuses st = Some (Inr statuses, st)"
| "statusDays L orgId (dateStr # days) statuses st =
     (case statusDay L orgId dateStr st of
        None \<Rightarrow> None
      | Some (Inl e, st1) \<Rightarrow> Some (Inl e, st1)
      | Some (Inr s, st1) \<Rightarrow> statusDays L orgId days (AList.update dateStr s statuses) st1)"

text \<open>\<open>GET /slots/status?start=..&end=..\<close>; a missing query parameter is \<open>None\<close>.\<close>

definition getSlotStatus ::
  "lib \<Rightarrow> user option \<Rightarrow> string option \<Rightarrow> string option \<Rightarrow> store \<Rightarrow> (response \<times> store) option" where
  "getSlotStatus L u start end' st =
     (case userId u of
        None \<Rightarrow> Some ((401, Message ''Unauthorized''), st)
      | Some orgId \<Rightarrow>
          (case (start, end') of
             (Some a, Some b) \<Rightarrow>
               if a = [] \<or> b = [] then Some ((400, Message ''Invalid date range''), st)
               else
                 (let st1 = ensureSettings orgId st;
                      st2 = (if timeSlots st1 orgId = None
                             then st1\<lparr>timeSlots := (timeSlots st1)(orgId \<mapsto> Map.empty)\<rparr>
                             else st1)
                  in case eachDay L a b of
                       None \<Rightarrow> Some ((500, Message ''Failed to fetch slot statuses''), st2)
                     | Some days \<Rightarrow>
                         (case statusDays L orgId days [] st2 of
                            None \<Rightarrow> None
                          | Some (Inl e, st3) \<Rightarrow>
                              Some ((500, Message ''Failed to fetch slot statuses''), st3)
                          | Some (Inr statuses, st3) \<Rightarrow> Some ((200, StatusesBody statuses), st3)))
           | _ \<Rightarrow> Some ((400, Message ''Invalid date range''), st)))"

text \<open>\<open>timeSlots[orgId]?.[date]\<close>\<close>

definition cachedSlots :: "store \<Rightarrow> string \<Rightarrow> string \<Rightarrow> TimeSlot list option" where
  "cachedSlots st orgId date =
     (case timeSlots st orgId of None \<Rightarrow> None | Some cache \<Rightarrow> cache date)"

text \<open>
  \<open>GET /slots/:date\<close>. The cached slots of the day, or freshly generated ones that are
  not cached; the reconciliation builds new slot objects and leaves the cache alone.
\<close>

definition getSlots :: "lib \<Rightarrow> user option \<Rightarrow> string \<Rightarrow> store \<Rightarrow> (response \<times> store) option" where
  "getSlots L u date st =
     (case userId u of
        None \<Rightarrow> Some ((401, Message ''Unauthorized''), st)
      | Some orgId \<Rightarrow>
          (case (case cachedSlots st orgId date of
                   Some slots \<Rightarrow> Some (Inr (slots, uuids st))
                 | None \<Rightarrow> generateFor L (uuids st) date (settings st orgId)) of
             None \<Rightarrow> None
           | Some (Inl e) \<Rightarrow> Some ((500, Message ''Failed to fetch time slots''), st)
           | Some (Inr (slots0, n)) \<Rightarrow>
               (let slots = markBooked (bookedSlots st date) slots0;
                    st1 = st\<lparr>uuids := n\<rparr>
                in case lockedDays st1 orgId of
                     None \<Rightarrow> Some ((500, Message ''Failed to fetch time slots''), st1)
                   | Some locked \<Rightarrow> Some ((200, SlotsBody slots (date \<in> set locked)), st1))))"

text \<open>\<open>PUT /slots/:date\<close>; the body is an array of slots, which the schema accepts.\<close>

definition putSlots :: "user option \<Rightarrow> string \<Rightarrow> TimeSlot list \<Rightarrow> store \<Rightarrow> response \<times> store" where
  "putSlots u date validatedSlots st =
     (case userId u of
        None \<Rightarrow> ((401, Message ''Unauthorized''), st)
      | Some orgId \<Rightarrow>
          (case timeSlots st orgId of
             None \<Rightarrow> ((500, Message ''Failed to update time slots''), st)
           | Some cache \<Rightarrow>
               (let st1 = st\<lparr>timeSlots := (timeSlots st)(orgId \<mapsto> cache(date \<mapsto> validatedSlots))\<rparr>
                in case lockedDays st1 orgId of
                     None \<Rightarrow> ((500, Message ''Failed to update time slots''), st1)
                   | Some locked \<Rightarrow>
                       ((200, DaySlotsBody date validatedSlots (date \<in> set locked)), st1))))"

text \<open>\<open>PUT /locked-days/:date\<close> with the body \<open>{isLocked}\<close>.\<close>

definition putLockedDay :: "user option \<Rightarrow> string \<Rightarrow> bool \<Rightarrow> store \<Rightarrow> response \<times> store" where
  "putLockedDay u date locks st =
     (case userId u of
        None \<Rightarrow> ((401, Message ''Unauthorized''), st)
      | Some orgId \<Rightarrow>
          (case lockedDays st orgId of
             None \<Rightarrow> ((500, Message ''Failed to update locked status''), st)
           | Some locked \<Rightarrow>
               (if locks then
                  (if date \<notin> set locked
                   then ((200, LockedBody date locks),
                         st\<lparr>lockedDays := (lockedDays st)(orgId \<mapsto> locked @ [date])\<rparr>)
                   else ((200, LockedBody date locks), st))
                else ((200, LockedBody date locks),
                      st\<lparr>lockedDays := (lockedDays st)(orgId \<mapsto> filter (\<lambda>d. d \<noteq> date) locked)\<rparr>))))"

section \<open>Appointment routes\<close>

text \<open>The body of \<open>POST /api/appointments\<close>.\<close>

record AppointmentRequest =
  rq_organizationId :: string
  rq_date :: string
  rq_timeSlot :: SlotTime
  rq_notes :: "string option"

text \<open>The regular expression \<open>^([0-1]?[0-9]|2[0-3]):[0-5][0-9]$\<close> of the schema.\<close>

definition validTime :: "string \<Rightarrow> bool" where
  "validTime s =
     (case s of
        [h, c, m1, m2] \<Rightarrow>
          digitVal h \<noteq> None \<and> c = CHR '':''
          \<and> (case digitVal m1 of None \<Rightarrow> False | Some d \<Rightarrow> d \<le> 5) \<and> digitVal m2 \<noteq> None
      | [h1, h2, c, m1, m2] \<Rightarrow>
          ((case digitVal h1 of None \<Rightarrow> False | Some d \<Rightarrow> d \<le> 1) \<and> digitVal h2 \<noteq> None
           \<or> h1 = CHR ''2'' \<and> (case digitVal h2 of None \<Rightarrow> False | Some d \<Rightarrow> d \<le> 3))
          \<and> c = CHR '':''
          \<and> (case digitVal m1 of None \<Rightarrow> False | Some d \<Rightarrow> d \<le> 5) \<and> digitVal m2 \<noteq> None
      | _ \<Rightarrow> False)"

text \<open>
  \<open>createAppointmentSchema\<close>: a non-empty organization id, a date that \<open>Date.parse\<close>
  reads, two times of day, and notes of at most 500 characters.
\<close>

definition createAppointmentSchema :: "lib \<Rightarrow> AppointmentRequest \<Rightarrow> bool" where
  "createAppointmentSchema L b =
     (1 \<le> length (rq_organizationId b)
      \<and> formatYMD L (rq_date b) \<noteq> None
      \<and> validTime (st_start (rq_timeSlot b))
      \<and> validTime (st_end (rq_timeSlot b))
      \<and> (case rq_notes b of None \<Rightarrow> True | Some t \<Rightarrow> length t \<le> 500))"

text \<open>\<open>POST /api/appointments\<close>\<close>

definition createAppointment ::
  "lib \<Rightarrow> user option \<Rightarrow> AppointmentRequest \<Rightarrow> store \<Rightarrow> response \<times> store" where
  "createAppointment L u b st =
     (case u of
        None \<Rightarrow> ((401, Message ''Unauthorized''), st)
      | Some x \<Rightarrow>
          if u_id x = [] \<or> role x \<noteq> ''individual'' then ((401, Message ''Unauthorized''), st)
          else if \<not> createAppointmentSchema L b then ((400, Message ''Invalid data''), st)
          else
            (case formatYMD L (rq_date b) of
               None \<Rightarrow> ((500, Message ''Failed to create appointment''), st)
             | Some dateStr \<Rightarrow>
                 (case (case bookedSlots st dateStr of
                          None \<Rightarrow> None
                        | Some entry \<Rightarrow>
                            find (\<lambda>slot. st_start slot = st_start (rq_timeSlot b)
                                         \<and> st_end slot = st_end (rq_timeSlot b))
                              (bk_timeSlots entry)) of
                    Some existingBooking \<Rightarrow>
                      ((400, Message ''This time slot is already booked''), st)
                  | None \<Rightarrow>
                      (let appointment =
                             \<lparr>ap_id = uuidv4 L (uuids st),
                              organizationId = rq_organizationId b,
                              organizationName = ''Organization Name'',
                              individualId = u_id x,
                              individualName = u_name x,
                              ap_date = rq_date b,
                              timeSlot = rq_timeSlot b,
                              status = pending,
                              ap_notes = rq_notes b,
                              number = randomNumber L (randoms st)\<rparr>;
                           entry = (case bookedSlots st dateStr of
                                      None \<Rightarrow> \<lparr>bk_organizationId = organizationId appointment,
                                                bk_appointmentId = ap_id appointment,
                                                bk_timeSlots = []\<rparr>
                                    | Some e \<Rightarrow> e)
                       in ((201, AppointmentBody appointment),
                           st\<lparr>appointments := appointments st @ [appointment],
                              bookedSlots := (bookedSlots st)
                                (dateStr \<mapsto> entry\<lparr>bk_timeSlots := bk_timeSlots entry
                                    @ [\<lparr>st_start = st_start (timeSlot appointment),
                                         st_end = st_end (timeSlot appointment)\<rparr>]\<rparr>),
                              uuids := Suc (uuids st),
                              randoms := Suc (randoms st)\<rparr>)))))"

text \<open>
  \<open>appointments.find(p)\<close> returns the first appointment that satisfies \<open>p\<close>, and the
  handlers then assign to a field of that object: the first match of the list is replaced.
\<close>

fun updateFirst :: "('a \<Rightarrow> bool) \<Rightarrow> ('a \<Rightarrow> 'a) \<Rightarrow> 'a list \<Rightarrow> 'a list" where
  "updateFirst p f [] = []"
| "updateFirst p f (x # xs) = (if p x then f x # xs else x # updateFirst p f xs)"

text \<open>
  The statements both cancelling handlers run on the index: drop from the date's entry
  every booked slot that starts when the appointment starts, and delete the entry once
  it holds no slot.
\<close>

definition removeBookedSlot ::
  "string \<Rightarrow> Appointment \<Rightarrow> (string \<rightharpoonup> BookedEntry) \<Rightarrow> (string \<rightharpoonup> BookedEntry)" where
  "removeBookedSlot dateStr appointment idx =
     (case idx dateStr of
        None \<Rightarrow> idx
      | Some entry \<Rightarrow>
          (let kept = filter (\<lambda>slot. st_start slot \<noteq> st_start (timeSlot appointment))
                        (bk_timeSlots entry)
           in if length kept = 0 then idx(dateStr := None)
              else idx(dateStr \<mapsto> entry\<lparr>bk_timeSlots := kept\<rparr>)))"

text \<open>
  \<open>PATCH /api/appointments/:id/status\<close>; the schema accepts \<open>confirmed\<close> and \<open>cancelled\<close>.
\<close>

definition updateStatus ::
  "lib \<Rightarrow> user option \<Rightarrow> string \<Rightarrow> AppointmentStatus \<Rightarrow> store \<Rightarrow> response \<times> store" where
  "updateStatus L u i newStatus st =
     (case u of
        None \<Rightarrow> ((401, Message ''Unauthorized''), st)
      | Some x \<Rightarrow>
          if u_id x = [] \<or> role x \<noteq> ''organization'' then ((401, Message ''Unauthorized''), st)
          else if newStatus \<noteq> confirmed \<and> newStatus \<noteq> cancelled
          then ((400, Message ''Invalid status''), st)
          else
            (let p = (\<lambda>apt. ap_id apt = i \<and> organizationId apt = u_id x) in
             case find p (appointments st) of
               None \<Rightarrow> ((404, Message ''Appointment not found''), st)
             | Some found \<Rightarrow>
                 (let appointment = found\<lparr>status := newStatus\<rparr>;
                      st1 = st\<lparr>appointments :=
                                updateFirst p (\<lambda>apt. apt\<lparr>status := newStatus\<rparr>) (appointments st)\<rparr>
                  in if newStatus = cancelled then
                       (case formatYMD L (ap_date appointment) of
                          None \<Rightarrow> ((500, Message ''Failed to update appointment status''), st1)
                        | Some dateStr \<Rightarrow>
                            ((200, AppointmentBody appointment),
                             st1\<lparr>bookedSlots := removeBookedSlot dateStr appointment (bookedSlots st1)\<rparr>))
                     else ((200, AppointmentBody appointment), st1))))"

text \<open>\<open>POST /api/appointments/:id/cancel\<close>\<close>

definition cancelAppointment ::
  "lib \<Rightarrow> user option \<Rightarrow> string \<Rightarrow> store \<Rightarrow> response \<times> store" where
  "cancelAppointment L u i st =
     (case u of
        None \<Rightarrow> ((401, Message ''Unauthorized''), st)
      | Some x \<Rightarrow>
          if u_id x = [] \<or> role x \<noteq> ''individual'' then ((401, Message ''Unauthorized''), st)
          else
            (let p = (\<lambda>apt. ap_id apt = i \<and> individualId apt = u_id x) in
             case find p (appointments st) of
               None \<Rightarrow> ((404, Message ''Appointment not found''), st)
             | Some found \<Rightarrow>
                 if status found = cancelled
                 then ((400, Message ''Appointment is already cancelled''), st)
                 else
                   (let appointment = found\<lparr>status := cancelled\<rparr>;
                        st1 = st\<lparr>appointments :=
                                  updateFirst p (\<lambda>apt. apt\<lparr>status := cancelled\<rparr>) (appointments st)\<rparr>
                    in case formatYMD L (ap_date appointment) of
                         None \<Rightarrow> ((500, Message ''Failed to cancel appointment''), st1)
                       | Some dateStr \<Rightarrow>
                           ((200, AppointmentBody appointment),
                            st1\<lparr>bookedSlots := removeBookedSlot dateStr appointment (bookedSlots st1)\<rparr>))))"

section \<open>Requests\<close>

text \<open>
  The requests that write to the stores or read the slots, and the server as a step
  function on the stores. The remaining routes (lists, statistics, analytics, profiles,
  registration and login) leave these stores as they are.
\<close>

datatype request =
    GetSettings "user option"
  | PutSettings "user option" OrganizationSettings
  | GetSlotStatus "user option" "string option" "string option"
  | GetSlots "user option" string
  | PutSlots "user option" string "TimeSlot list"
  | PutLockedDay "user option" string bool
  | CreateAppointment "user option" AppointmentRequest
  | UpdateStatus "user option" string AppointmentStatus
  | CancelAppointment "user option" string

fun handle :: "lib \<Rightarrow> request \<Rightarrow> store \<Rightarrow> (response \<times> store) option" where
  "handle L (GetSettings u) st = Some (getSettings u st)"
| "handle L (PutSettings u b) st = Some (putSettings u b st)"
| "handle L (GetSlotStatus u a b) st = getSlotStatus L u a b st"
| "handle L (GetSlots u date) st = getSlots L u date st"
| "handle L (PutSlots u date slots) st = Some (putSlots u date slots st)"
| "handle L (PutLockedDay u date locks) st = Some (putLockedDay u date locks st)"
| "handle L (CreateAppointment u b) st = Some (createAppointment L u b st)"
| "handle L (UpdateStatus u i s) st = Some (updateStatus L u i s st)"
| "handle L (CancelAppointment u i) st = Some (cancelAppointment L u i st)"

text \<open>The requests one after the other; \<open>None\<close> when one of them does not return.\<close>

fun run :: "lib \<Rightarrow> request list \<Rightarrow> store \<Rightarrow> (response list \<times> store) option" where
  "run L [] st = Some ([], st)"
| "run L (r # rs) st =
     (case handle L r st of
        None \<Rightarrow> None
      | Some (resp, st1) \<Rightarrow>
          (case run L rs st1 of
             None \<Rightarrow> None
           | Some (resps, st2) \<Rightarrow> Some (resp # resps, st2)))"

section \<open>Notions used in the statements\<close>



text \<open>
  A cached slot \<open>new\<close> is the slot \<open>old\<close> of an earlier state, and is available only if
  \<open>old\<close> was.
\<close>

definition noBetter :: "TimeSlot \<Rightarrow> TimeSlot \<Rightarrow> bool" where
  "noBetter old new =
     (ts_id new = ts_id old \<and> ts_start new = ts_start old \<and> ts_end new = ts_end old
      \<and> (isAvailable new \<longrightarrow> isAvailable old))"

text \<open>
  The requests that replace the cache entry of an organization's date: its
  \<open>PUT /settings\<close> and its \<open>PUT /slots/:date\<close> for that date.
\<close>

definition replacesCache :: "string \<Rightarrow> string \<Rightarrow> request \<Rightarrow> bool" where
  "replacesCache orgId date r =
     (case r of
        PutSettings u b \<Rightarrow> userId u = Some orgId
      | PutSlots u d slots \<Rightarrow> userId u = Some orgId \<and> d = date
      | _ \<Rightarrow> False)"

text \<open>The request by which an organization unlocks a date.\<close>

definition unlocks :: "string \<Rightarrow> string \<Rightarrow> request \<Rightarrow> bool" where
  "unlocks orgId date r =
     (case r of
        PutLockedDay u d locks \<Rightarrow> userId u = Some orgId \<and> d = date \<and> \<not> locks
      | _ \<Rightarrow> False)"

text \<open>A response without its lock flags: what is left of a status report are the counts.\<close>

definition dropLocks :: "response \<Rightarrow> response" where
  "dropLocks r =
     (case r of
        (code, StatusesBody statuses) \<Rightarrow>
          (code, StatusesBody (map (\<lambda>(d, s). (d, s\<lparr>isLocked := False\<rparr>)) statuses))
      | _ \<Rightarrow> r)"

text \<open>
  An organization that has a slot cache or a list of locked days has settings: the three
  are created together, and settings are never removed. Every state the requests reach
  from the empty stores is of this kind.
\<close>

definition wellFormed :: "store \<Rightarrow> bool" where
  "wellFormed st =
     (\<forall>orgId. (lockedDays st orgId \<noteq> None \<or> timeSlots st orgId \<noteq> None)
                \<longrightarrow> settings st orgId \<noteq> None)"

text \<open>
  The status of a cached day as the stores have it: the lock flag of the date and the
  counts of the cached slots.
\<close>

definition dayStatusOf :: "store \<Rightarrow> string \<Rightarrow> string \<Rightarrow> DayStatus option" where
  "dayStatusOf st orgId date =
     (case (cachedSlots st orgId date, lockedDays st orgId) of
        (Some slots, Some locked) \<Rightarrow>
          Some \<lparr>isLocked = date \<in> set locked,
                availableSlots = length (filter isAvailable slots),
                totalSlots = length slots\<rparr>
      | _ \<Rightarrow> None)"

text \<open>The users and the booking of the examples.\<close>

definition org1 :: "user option" where
  "org1 = Some \<lparr>u_id = ''org1'', role = ''organization'', u_name = None\<rparr>"

definition ind1 :: "user option" where
  "ind1 = Some \<lparr>u_id = ''ind1'', role = ''individual'', u_name = None\<rparr>"

definition booking1 :: AppointmentRequest where
  "booking1 =
     \<lparr>rq_organizationId = ''org1'', rq_date = ''2024-01-15'',
      rq_timeSlot = \<lparr>st_start = ''09:00'', st_end = ''09:30''\<rparr>, rq_notes = None\<rparr>"

text \<open>
  The stores of the examples. \<open>storeSeen\<close> is reached from the empty stores when
  organization \<open>org1\<close> reads the status of Monday 2024-01-15, individual \<open>ind1\<close> books
  09:00-09:30 on that day and \<open>org1\<close> reads the status again; \<open>storeCancelled\<close> is reached
  from it when \<open>ind1\<close> cancels the appointment.
\<close>

definition apt1 :: Appointment where
  "apt1 =
     \<lparr>ap_id = ''uuid-16'', organizationId = ''org1'',
      organizationName = ''Organization Name'', individualId = ''ind1'',
      individualName = None, ap_date = ''2024-01-15'',
      timeSlot = \<lparr>st_start = ''09:00'', st_end = ''09:30''\<rparr>, status = pending,
      ap_notes = None, number = ''100000''\<rparr>"

definition mondayBooked :: "TimeSlot list" where
  "mondayBooked =
     \<lparr>ts_id = ''uuid-0'', ts_start = ''09:00'', ts_end = ''09:30'', isAvailable = False\<rparr>
       # map (slotAt utcLib defaultSettings 540 0) [1..<16]"

definition storeSeen :: store where
  "storeSeen =
     \<lparr>settings = [''org1'' \<mapsto> defaultSettings],
      timeSlots = [''org1'' \<mapsto> [''2024-01-15'' \<mapsto> mondayBooked]],
      lockedDays = [''org1'' \<mapsto> []],
      appointments = [apt1],
      bookedSlots = [''2024-01-15'' \<mapsto>
                       \<lparr>bk_organizationId = ''org1'', bk_appointmentId = ''uuid-16'',
                        bk_timeSlots = [\<lparr>st_start = ''09:00'', st_end = ''09:30''\<rparr>]\<rparr>],
      uuids = 17, randoms = 1\<rparr>"

definition storeCancelled :: store where
  "storeCancelled =
     storeSeen\<lparr>appointments := [apt1\<lparr>status := cancelled\<rparr>], bookedSlots := Map.empty\<rparr>"

section \<open>Properties of slot generation\<close>

lemma slotCount_step:
  assumes "0 < stepMinutes c" "t + slotDuration c \<le> e"
  shows "slotCount c t e = Suc (slotCount c (t + stepMinutes c) e)"
proof (cases "t + stepMinutes c + slotDuration c \<le> e")
  case True
  have "(e - t - slotDuration c) div stepMinutes c
        = (e - (t + stepMinutes c) - slotDuration c) div stepMinutes c + 1"
  proof -
    have "e - t - slotDuration c = (e - (t + stepMinutes c) - slotDuration c) + stepMinutes c"
      by simp
    then show ?thesis using assms(1)
      by (metis div_add_self2 less_irrefl)
  qed
  moreover have "0 \<le> (e - (t + stepMinutes c) - slotDuration c) div stepMinutes c"
    using True assms(1) by (simp add: pos_imp_zdiv_nonneg_iff)
  ultimately show ?thesis using True assms(2)
    by (simp add: slotCount_def nat_add_distrib)
next
  case False
  then have "(e - t - slotDuration c) div stepMinutes c = 0"
    using assms by simp
  then show ?thesis using False assms(2) by (simp add: slotCount_def)
qed

lemma slotAt_shift:
  "slotAt L c (t + stepMinutes c) (Suc n) k = slotAt L c t n (Suc k)"
  by (simp add: slotAt_def algebra_simps)

text \<open>
  The loop from any time \<open>t\<close> at or after the opening time: it returns, having appended
  the slots \<open>0, ..., slotCount - 1\<close> counted from \<open>t\<close>. Induction on the distance of \<open>t\<close>
  from the closing time.
\<close>

lemma slotLoop_closed:
  assumes "0 \<le> slotDuration c" "0 < stepMinutes c"
  shows "s \<le> t \<Longrightarrow>
         slotLoop L c s e t n acc
           = Some (acc @ map (slotAt L c t n) [0..<slotCount c t e], n + slotCount c t e)"
proof (induction "nat (e + 1 - t)" arbitrary: t n acc rule: less_induct)
  case less
  show ?case
  proof (cases "t \<le> e")
    case False
    then have "slotCount c t e = 0" using assms(1) by (simp add: slotCount_def)
    then show ?thesis using False
      by (subst slotLoop.simps) (simp add: isWithinInterval_def)
  next
    case True
    let ?t' = "t + stepMinutes c"
    have dec: "nat (e + 1 - ?t') < nat (e + 1 - t)" using True assms(2) by simp
    have st': "s \<le> ?t'" using less.prems assms(2) by simp
    note IH = less.hyps [OF dec st']
    show ?thesis
    proof (cases "t + slotDuration c \<le> e")
      case fits: True
      have cnt: "slotCount c t e = Suc (slotCount c ?t' e)"
        using slotCount_step [OF assms(2) fits] .
      have "slotLoop L c s e t n acc
            = slotLoop L c s e ?t' (Suc n) (acc @ [slotAt L c t n 0])"
        using True fits less.prems assms(1)
        by (subst slotLoop.simps)
           (simp add: isWithinInterval_def addMinutes_def stepMinutes_def slotAt_def add.assoc)
      also have "\<dots> = Some ((acc @ [slotAt L c t n 0])
                          @ map (slotAt L c ?t' (Suc n)) [0..<slotCount c ?t' e],
                        Suc n + slotCount c ?t' e)"
        by (rule IH)
      also have "\<dots> = Some (acc @ map (slotAt L c t n) [0..<slotCount c t e],
                        n + slotCount c t e)"
        by (simp add: cnt map_upt_Suc slotAt_shift del: upt_Suc)
      finally show ?thesis .
    next
      case nofit: False
      have c0: "slotCount c t e = 0" using nofit by (simp add: slotCount_def)
      have c1: "slotCount c ?t' e = 0" using nofit assms(2) by (simp add: slotCount_def)
      have "slotLoop L c s e t n acc = slotLoop L c s e ?t' n acc"
        using True nofit less.prems
        by (subst slotLoop.simps)
           (simp add: isWithinInterval_def addMinutes_def stepMinutes_def add.assoc)
      also have "\<dots> = Some (acc @ map (slotAt L c ?t' n) [0..<slotCount c ?t' e],
                         n + slotCount c ?t' e)"
        by (rule IH)
      finally show ?thesis by (simp add: c0 c1)
    qed
  qed
qed



lemma generateTimeSlots_open:
  assumes "formatEEEE L date = Some dayOfWeek"
    and "find (\<lambda>h. day h = dayOfWeek) (businessHours c) = Some h"
    and "isOpen h"
    and "parseHHmm (bh_start h) = Some s"
    and "parseHHmm (bh_end h) = Some e"
    and "s \<le> e"
    and "0 \<le> slotDuration c"
    and "0 < stepMinutes c"
  shows "generateTimeSlots L n date c
           = Some (Inr (map (slotAt L c s n) [0..<slotCount c s e], n + slotCount c s e))"
proof -
  have "slotLoop L c s e s n []
          = Some ([] @ map (slotAt L c s n) [0..<slotCount c s e], n + slotCount c s e)"
    using assms(7,8) by (rule slotLoop_closed) simp
  then show ?thesis
    using assms(1-6) by (simp add: generateTimeSlots_def)
qed

lemma parse_nine: "parseHHmm ''09:00'' = Some 540"
  by (simp add: parseHHmm_def digitVal_def)

lemma parse_five: "parseHHmm ''17:00'' = Some 1020"
  by (simp add: parseHHmm_def digitVal_def)

lemma utcLib_monday: "formatEEEE utcLib ''2024-01-15'' = Some ''Monday''"
  by (simp add: utcLib_def parseYMD_def digitVal_def daysInMonth_def isLeapYear_def
      weekdayName_def dayNumber_def)

lemma utcLib_saturday: "formatEEEE utcLib ''2024-01-13'' = Some ''Saturday''"
  by (simp add: utcLib_def parseYMD_def digitVal_def daysInMonth_def isLeapYear_def
      weekdayName_def dayNumber_def)

text \<open>
  C5. On a date whose weekday has no business-hours entry, or an entry that is not
  open, \<open>generateTimeSlots\<close> returns the empty sequence and draws no uuid, whatever the
  slot duration and the break are.
\<close>

theorem generateTimeSlots_closed_day:
  assumes "formatEEEE L date = Some dayOfWeek"
    and "find (\<lambda>h. day h = dayOfWeek) (businessHours c) = None
         \<or> (\<exists>h. find (\<lambda>h. day h = dayOfWeek) (businessHours c) = Some h \<and> \<not> isOpen h)"
  shows "generateTimeSlots L n date c = Some (Inr ([], n))"
  using assms by (auto simp: generateTimeSlots_def)

theorem generateTimeSlots_closed_day_witness:
  "formatEEEE utcLib ''2024-01-13'' = Some ''Saturday''
   \<and> (\<exists>h. find (\<lambda>h. day h = ''Saturday'')
             (businessHours (defaultSettings\<lparr>slotDuration := 0, breakBetweenSlots := 0\<rparr>)) = Some h
          \<and> \<not> isOpen h)
   \<and> generateTimeSlots utcLib 7 ''2024-01-13''
        (defaultSettings\<lparr>slotDuration := 0, breakBetweenSlots := 0\<rparr>) = Some (Inr ([], 7))
   \<and> find (\<lambda>h. day h = ''Saturday'') (businessHours (defaultSettings\<lparr>businessHours := []\<rparr>)) = None
   \<and> generateTimeSlots utcLib 7 ''2024-01-13'' (defaultSettings\<lparr>businessHours := []\<rparr>)
        = Some (Inr ([], 7))"
proof -
  let ?c = "defaultSettings\<lparr>slotDuration := 0, breakBetweenSlots := 0\<rparr>"
  have closed: "\<exists>h. find (\<lambda>h. day h = ''Saturday'') (businessHours ?c) = Some h \<and> \<not> isOpen h"
    by (simp add: defaultSettings_def)
  have missing: "find (\<lambda>h. day h = ''Saturday'') (businessHours (defaultSettings\<lparr>businessHours := []\<rparr>)) = None"
    by simp
  show ?thesis
    using generateTimeSlots_closed_day [OF utcLib_saturday disjI2, OF closed, of 7]
      generateTimeSlots_closed_day [OF utcLib_saturday disjI1, OF missing, of 7]
      utcLib_saturday closed missing
    by simp
qed

text \<open>
  C3. With the weekday open from 09:00 to 17:00, 30-minute slots and no break,
  \<open>generateTimeSlots\<close> returns 16 slots, 09:00-09:30 to 16:30-17:00, each starting when
  the one before it ends (all available, with the next 16 uuids as ids).
\<close>

theorem generateTimeSlots_nine_to_five:
  assumes "formatEEEE L date = Some dayOfWeek"
    and "find (\<lambda>h. day h = dayOfWeek) (businessHours c) = Some h"
    and "isOpen h" and "bh_start h = ''09:00''" and "bh_end h = ''17:00''"
    and "slotDuration c = 30" and "breakBetweenSlots c = 0"
  shows "\<exists>slots. generateTimeSlots L n date c = Some (Inr (slots, n + 16))
           \<and> length slots = 16
           \<and> map (\<lambda>s. (ts_start s, ts_end s)) slots =
               [(''09:00'', ''09:30''), (''09:30'', ''10:00''), (''10:00'', ''10:30''),
                (''10:30'', ''11:00''), (''11:00'', ''11:30''), (''11:30'', ''12:00''),
                (''12:00'', ''12:30''), (''12:30'', ''13:00''), (''13:00'', ''13:30''),
                (''13:30'', ''14:00''), (''14:00'', ''14:30''), (''14:30'', ''15:00''),
                (''15:00'', ''15:30''), (''15:30'', ''16:00''), (''16:00'', ''16:30''),
                (''16:30'', ''17:00'')]
           \<and> (\<forall>i. Suc i < length slots \<longrightarrow> ts_start (slots ! Suc i) = ts_end (slots ! i))
           \<and> map ts_id slots = map (uuidv4 L) [n..<n + 16]
           \<and> list_all isAvailable slots"
proof -
  have step: "stepMinutes c = 30" using assms(6,7) by (simp add: stepMinutes_def)
  have cnt: "slotCount c 540 1020 = 16" using assms(6) step by (simp add: slotCount_def)
  let ?slots = "map (slotAt L c 540 n) [0..<16]"
  have gen: "generateTimeSlots L n date c = Some (Inr (?slots, n + 16))"
    using generateTimeSlots_open [OF assms(1,2,3), of 540 1020 n] assms(4,5,6) step cnt
    by (simp add: parse_nine parse_five)
  have pairs: "map (\<lambda>s. (ts_start s, ts_end s)) ?slots =
               [(''09:00'', ''09:30''), (''09:30'', ''10:00''), (''10:00'', ''10:30''),
                (''10:30'', ''11:00''), (''11:00'', ''11:30''), (''11:30'', ''12:00''),
                (''12:00'', ''12:30''), (''12:30'', ''13:00''), (''13:00'', ''13:30''),
                (''13:30'', ''14:00''), (''14:00'', ''14:30''), (''14:30'', ''15:00''),
                (''15:00'', ''15:30''), (''15:30'', ''16:00''), (''16:00'', ''16:30''),
                (''16:30'', ''17:00'')]"
    using assms(6) step
    by (simp add: upt_rec slotAt_def formatHHmm_def pad2_def digitChar_def)
  have contiguous: "\<forall>i. Suc i < length ?slots \<longrightarrow> ts_start (?slots ! Suc i) = ts_end (?slots ! i)"
    using assms(6) step by (simp add: slotAt_def algebra_simps del: upt_Suc)
  have ids: "map ts_id ?slots = map (uuidv4 L) [n..<n + 16]"
  proof -
    have "map ts_id ?slots = map (\<lambda>k. uuidv4 L (n + k)) [0..<16]"
      by (simp add: slotAt_def comp_def del: upt_Suc)
    also have "\<dots> = map (uuidv4 L) (map (\<lambda>k. n + k) [0..<16])"
      by (simp add: comp_def del: upt_Suc)
    also have "map (\<lambda>k. n + k) [0..<16] = [n..<n + 16]"
      using map_add_upt [of n 16] by (simp add: add.commute)
    finally show ?thesis .
  qed
  have avail: "list_all isAvailable ?slots"
    by (simp add: list_all_iff slotAt_def del: upt_Suc)
  show ?thesis
    using gen pairs contiguous ids avail by (intro exI [of _ ?slots]) simp
qed

theorem generateTimeSlots_nine_to_five_witness:
  "formatEEEE utcLib ''2024-01-15'' = Some ''Monday''
   \<and> find (\<lambda>h. day h = ''Monday'') (businessHours defaultSettings)
       = Some \<lparr>day = ''Monday'', bh_start = ''09:00'', bh_end = ''17:00'', isOpen = True\<rparr>
   \<and> slotDuration defaultSettings = 30 \<and> breakBetweenSlots defaultSettings = 0
   \<and> (\<exists>slots. generateTimeSlots utcLib 0 ''2024-01-15'' defaultSettings = Some (Inr (slots, 16))
         \<and> length slots = 16
         \<and> map (\<lambda>s. (ts_start s, ts_end s)) slots =
               [(''09:00'', ''09:30''), (''09:30'', ''10:00''), (''10:00'', ''10:30''),
                (''10:30'', ''11:00''), (''11:00'', ''11:30''), (''11:30'', ''12:00''),
                (''12:00'', ''12:30''), (''12:30'', ''13:00''), (''13:00'', ''13:30''),
                (''13:30'', ''14:00''), (''14:00'', ''14:30''), (''14:30'', ''15:00''),
                (''15:00'', ''15:30''), (''15:30'', ''16:00''), (''16:00'', ''16:30''),
                (''16:30'', ''17:00'')]
         \<and> (\<forall>i. Suc i < length slots \<longrightarrow> ts_start (slots ! Suc i) = ts_end (slots ! i))
         \<and> map ts_id slots = map (uuidv4 utcLib) [0..<0 + 16]
         \<and> list_all isAvailable slots)"
proof -
  let ?h = "\<lparr>day = ''Monday'', bh_start = ''09:00'', bh_end = ''17:00'', isOpen = True\<rparr>"
  have f: "find (\<lambda>h. day h = ''Monday'') (businessHours defaultSettings) = Some ?h"
    by (simp add: defaultSettings_def)
  have d: "slotDuration defaultSettings = 30" and b: "breakBetweenSlots defaultSettings = 0"
    by (simp_all add: defaultSettings_def)
  have "\<exists>slots. generateTimeSlots utcLib 0 ''2024-01-15'' defaultSettings = Some (Inr (slots, 0 + 16))
         \<and> length slots = 16
         \<and> map (\<lambda>s. (ts_start s, ts_end s)) slots =
               [(''09:00'', ''09:30''), (''09:30'', ''10:00''), (''10:00'', ''10:30''),
                (''10:30'', ''11:00''), (''11:00'', ''11:30''), (''11:30'', ''12:00''),
                (''12:00'', ''12:30''), (''12:30'', ''13:00''), (''13:00'', ''13:30''),
                (''13:30'', ''14:00''), (''14:00'', ''14:30''), (''14:30'', ''15:00''),
                (''15:00'', ''15:30''), (''15:30'', ''16:00''), (''16:00'', ''16:30''),
                (''16:30'', ''17:00'')]
         \<and> (\<forall>i. Suc i < length slots \<longrightarrow> ts_start (slots ! Suc i) = ts_end (slots ! i))
         \<and> map ts_id slots = map (uuidv4 utcLib) [0..<0 + 16]
         \<and> list_all isAvailable slots"
    by (rule generateTimeSlots_nine_to_five [OF utcLib_monday f _ _ _ d b]) simp_all
  then show ?thesis using utcLib_monday f d b by simp
qed







section \<open>Bookings and the slots of a day\<close>

lemma utcLib_ymd: "formatYMD utcLib ''2024-01-15'' = Some ''2024-01-15''"
  by (simp add: utcLib_def parseYMD_def digitVal_def daysInMonth_def isLeapYear_def
      showYMD_def pad2_def digitChar_def)

lemma booking1_schema: "createAppointmentSchema utcLib (booking1\<lparr>rq_organizationId := org\<rparr>) = (org \<noteq> [])"
  using utcLib_ymd
  by (cases org) (simp_all add: createAppointmentSchema_def booking1_def validTime_def digitVal_def)

lemma createAppointment_booking1:
  "createAppointment utcLib ind1 booking1 emptyStore =
     ((201, AppointmentBody
        \<lparr>ap_id = uuidv4 utcLib 0, organizationId = ''org1'',
         organizationName = ''Organization Name'', individualId = ''ind1'',
         individualName = None, ap_date = ''2024-01-15'',
         timeSlot = \<lparr>st_start = ''09:00'', st_end = ''09:30''\<rparr>, status = pending,
         ap_notes = None, number = randomNumber utcLib 0\<rparr>),
      emptyStore
        \<lparr>appointments :=
           [\<lparr>ap_id = uuidv4 utcLib 0, organizationId = ''org1'',
             organizationName = ''Organization Name'', individualId = ''ind1'',
             individualName = None, ap_date = ''2024-01-15'',
             timeSlot = \<lparr>st_start = ''09:00'', st_end = ''09:30''\<rparr>, status = pending,
             ap_notes = None, number = randomNumber utcLib 0\<rparr>],
         bookedSlots :=
           [''2024-01-15'' \<mapsto>
              \<lparr>bk_organizationId = ''org1'', bk_appointmentId = uuidv4 utcLib 0,
               bk_timeSlots = [\<lparr>st_start = ''09:00'', st_end = ''09:30''\<rparr>]\<rparr>],
         uuids := 1, randoms := 1\<rparr>)"
proof -
  have "createAppointmentSchema utcLib booking1"
    using booking1_schema [of "''org1''"] by (simp add: booking1_def)
  then show ?thesis
    using utcLib_ymd
    by (simp add: createAppointment_def ind1_def emptyStore_def booking1_def Let_def)
qed

text \<open>
  C10. A request of an authenticated individual that passes the schema, for a date whose
  entry in the booked-slots index already holds the requested start and end, is answered
  400 with the message \<open>This time slot is already booked\<close> and changes nothing. The entry
  is found by the date alone: the organization of the request and the organization
  recorded in the entry play no part.
\<close>

theorem createAppointment_rejects_duplicate:
  assumes "u = Some x" and "u_id x \<noteq> []" and "role x = ''individual''"
    and "createAppointmentSchema L b"
    and "formatYMD L (rq_date b) = Some dateStr"
    and "bookedSlots st dateStr = Some entry"
    and "\<exists>slot\<in>set (bk_timeSlots entry).
           st_start slot = st_start (rq_timeSlot b) \<and> st_end slot = st_end (rq_timeSlot b)"
  shows "createAppointment L u b st = ((400, Message ''This time slot is already booked''), st)"
proof -
  from assms(7)
  have "find (\<lambda>slot. st_start slot = st_start (rq_timeSlot b) \<and> st_end slot = st_end (rq_timeSlot b))
          (bk_timeSlots entry) \<noteq> None"
    by (auto simp: find_None_iff)
  then obtain existingBooking where
    "find (\<lambda>slot. st_start slot = st_start (rq_timeSlot b) \<and> st_end slot = st_end (rq_timeSlot b))
          (bk_timeSlots entry) = Some existingBooking"
    by auto
  then show ?thesis
    using assms(1-6) by (simp add: createAppointment_def)
qed

theorem createAppointment_rejects_duplicate_witness:
  "createAppointmentSchema utcLib (booking1\<lparr>rq_organizationId := ''org2''\<rparr>)
   \<and> formatYMD utcLib (rq_date (booking1\<lparr>rq_organizationId := ''org2''\<rparr>)) = Some ''2024-01-15''
   \<and> bookedSlots (snd (createAppointment utcLib ind1 booking1 emptyStore)) ''2024-01-15''
       = Some \<lparr>bk_organizationId = ''org1'', bk_appointmentId = uuidv4 utcLib 0,
               bk_timeSlots = [\<lparr>st_start = ''09:00'', st_end = ''09:30''\<rparr>]\<rparr>
   \<and> createAppointment utcLib (Some \<lparr>u_id = ''ind2'', role = ''individual'', u_name = None\<rparr>)
         (booking1\<lparr>rq_organizationId := ''org2''\<rparr>)
         (snd (createAppointment utcLib ind1 booking1 emptyStore))
       = ((400, Message ''This time slot is already booked''),
          snd (createAppointment utcLib ind1 booking1 emptyStore))"
proof -
  let ?b = "booking1\<lparr>rq_organizationId := ''org2''\<rparr>"
  let ?st = "snd (createAppointment utcLib ind1 booking1 emptyStore)"
  let ?entry = "\<lparr>bk_organizationId = ''org1'', bk_appointmentId = uuidv4 utcLib 0,
                 bk_timeSlots = [\<lparr>st_start = ''09:00'', st_end = ''09:30''\<rparr>]\<rparr>"
  have schema: "createAppointmentSchema utcLib ?b" by (simp add: booking1_schema)
  have ymd: "formatYMD utcLib (rq_date ?b) = Some ''2024-01-15''"
    using utcLib_ymd by (simp add: booking1_def)
  have idx: "bookedSlots ?st ''2024-01-15'' = Some ?entry"
    by (simp add: createAppointment_booking1)
  have dup: "\<exists>slot\<in>set (bk_timeSlots ?entry).
           st_start slot = st_start (rq_timeSlot ?b) \<and> st_end slot = st_end (rq_timeSlot ?b)"
    by (simp add: booking1_def)
  show ?thesis
    using createAppointment_rejects_duplicate [OF refl _ _ schema ymd idx dup] schema ymd idx
    by simp
qed







lemma createAppointment_free_day:
  assumes "bookedSlots st ''2024-01-15'' = None"
  shows "fst (fst (createAppointment utcLib ind1 booking1 st)) = 201"
  using assms utcLib_ymd booking1_schema [of "''org1''"]
  by (simp add: createAppointment_def ind1_def booking1_def Let_def)


section \<open>Settings and the slot cache\<close>

text \<open>
  C6. A successful \<open>PUT /settings\<close> of an organization stores the new settings and
  leaves the organization with an empty slot cache; the caches of all other
  organizations are as before. The next \<open>GET /slots/:date\<close> of the organization, for
  any date, therefore takes the day's slots from \<open>generateTimeSlots\<close> with the new settings.
\<close>

theorem putSettings_discards_cache:
  assumes "userId u = Some orgId"
    and "putSettings u b st = ((200, bd), st')"
  shows "timeSlots st' orgId = Some Map.empty
         \<and> settings st' orgId = Some b
         \<and> (\<forall>other. other \<noteq> orgId \<longrightarrow> timeSlots st' other = timeSlots st other)
         \<and> (\<forall>date. getSlots L u date st' =
               (case generateTimeSlots L (uuids st') date b of
                  None \<Rightarrow> None
                | Some (Inl e) \<Rightarrow> Some ((500, Message ''Failed to fetch time slots''), st')
                | Some (Inr (slots, n)) \<Rightarrow>
                    (case lockedDays st' orgId of
                       None \<Rightarrow> Some ((500, Message ''Failed to fetch time slots''), st'\<lparr>uuids := n\<rparr>)
                     | Some locked \<Rightarrow>
                         Some ((200, SlotsBody (markBooked (bookedSlots st' date) slots)
                                       (date \<in> set locked)),
                               st'\<lparr>uuids := n\<rparr>))))"
proof -
  from assms have valid: "settingsSchema b"
    by (auto simp: putSettings_def split: if_splits)
  let ?st1 = "ensureSettings orgId st"
  from assms valid have st': "st' = ?st1\<lparr>settings := (settings ?st1)(orgId \<mapsto> b),
                                          timeSlots := (timeSlots ?st1)(orgId \<mapsto> Map.empty)\<rparr>"
    by (simp add: putSettings_def Let_def)
  have cache: "timeSlots st' orgId = Some Map.empty" and cfg: "settings st' orgId = Some b"
    by (simp_all add: st')
  have others: "\<forall>other. other \<noteq> orgId \<longrightarrow> timeSlots st' other = timeSlots st other"
    by (simp add: st' ensureSettings_def initializeOrganizationSettings_def)
  have "getSlots L u date st' =
               (case generateTimeSlots L (uuids st') date b of
                  None \<Rightarrow> None
                | Some (Inl e) \<Rightarrow> Some ((500, Message ''Failed to fetch time slots''), st')
                | Some (Inr (slots, n)) \<Rightarrow>
                    (case lockedDays st' orgId of
                       None \<Rightarrow> Some ((500, Message ''Failed to fetch time slots''), st'\<lparr>uuids := n\<rparr>)
                     | Some locked \<Rightarrow>
                         Some ((200, SlotsBody (markBooked (bookedSlots st' date) slots)
                                       (date \<in> set locked)),
                               st'\<lparr>uuids := n\<rparr>)))" for date
    using assms(1) cache cfg
    by (simp add: getSlots_def cachedSlots_def generateFor_def Let_def
        split: option.splits sum.splits prod.splits)
  then show ?thesis using cache cfg others by blast
qed

theorem putSettings_discards_cache_witness:
  "userId org1 = Some ''org1''
   \<and> putSettings org1 (defaultSettings\<lparr>slotDuration := 45\<rparr>)
        (snd (putSlots org1 ''2024-01-15'' [] (initializeOrganizationSettings ''org1'' emptyStore)))
       = ((200, SettingsBody (defaultSettings\<lparr>slotDuration := 45\<rparr>)),
          snd (putSettings org1 (defaultSettings\<lparr>slotDuration := 45\<rparr>)
                 (snd (putSlots org1 ''2024-01-15'' []
                         (initializeOrganizationSettings ''org1'' emptyStore)))))
   \<and> cachedSlots (snd (putSlots org1 ''2024-01-15'' []
                          (initializeOrganizationSettings ''org1'' emptyStore)))
        ''org1'' ''2024-01-15'' = Some []
   \<and> timeSlots (snd (putSettings org1 (defaultSettings\<lparr>slotDuration := 45\<rparr>)
                       (snd (putSlots org1 ''2024-01-15'' []
                               (initializeOrganizationSettings ''org1'' emptyStore)))))
        ''org1'' = Some Map.empty"
proof -
  let ?st = "snd (putSlots org1 ''2024-01-15'' [] (initializeOrganizationSettings ''org1'' emptyStore))"
  let ?b = "defaultSettings\<lparr>slotDuration := 45\<rparr>"
  have u: "userId org1 = Some ''org1''" by (simp add: userId_def org1_def)
  have valid: "settingsSchema ?b" by (simp add: settingsSchema_def defaultSettings_def)
  have put: "putSettings org1 ?b ?st = ((200, SettingsBody ?b), snd (putSettings org1 ?b ?st))"
    using u valid by (simp add: putSettings_def Let_def)
  have cached: "cachedSlots ?st ''org1'' ''2024-01-15'' = Some []"
    using u by (simp add: putSlots_def cachedSlots_def initializeOrganizationSettings_def
        emptyStore_def Let_def)
  show ?thesis
    using putSettings_discards_cache [OF u put, of utcLib] u put cached by simp
qed

section \<open>The stores under the requests\<close>

lemma ensureSettings_keeps:
  assumes "settings st orgId \<noteq> None"
  shows "settings (ensureSettings other st) orgId = settings st orgId"
    and "lockedDays (ensureSettings other st) orgId = lockedDays st orgId"
    and "timeSlots (ensureSettings other st) orgId = timeSlots st orgId"
  using assms by (auto simp: ensureSettings_def initializeOrganizationSettings_def)

lemma ensureSettings_frame:
  "bookedSlots (ensureSettings other st) = bookedSlots st"
  "appointments (ensureSettings other st) = appointments st"
  "uuids (ensureSettings other st) = uuids st"
  "settings st orgId \<noteq> None \<Longrightarrow> settings (ensureSettings other st) orgId \<noteq> None"
  by (auto simp: ensureSettings_def initializeOrganizationSettings_def)

lemma noBetter_refl: "list_all2 noBetter slots slots"
  by (simp add: list_all2_refl noBetter_def)

lemma noBetter_trans:
  "list_all2 noBetter a b \<Longrightarrow> list_all2 noBetter b c \<Longrightarrow> list_all2 noBetter a c"
proof -
  have "noBetter x y \<Longrightarrow> noBetter y z \<Longrightarrow> noBetter x z" for x y z
    by (auto simp: noBetter_def)
  then show "list_all2 noBetter a b \<Longrightarrow> list_all2 noBetter b c \<Longrightarrow> list_all2 noBetter a c"
    by (rule list_all2_trans)
qed

lemma markBooked_noBetter: "list_all2 noBetter slots (markBooked entry slots)"
  by (cases entry) (auto simp: markBooked_def list_all2_map2 noBetter_def intro: list_all2_refl)

lemma noBetter_counts:
  "list_all2 noBetter a b \<Longrightarrow>
   length b = length a \<and> length (filter isAvailable b) \<le> length (filter isAvailable a)"
  by (induction rule: list_all2_induct) (auto simp: noBetter_def)

text \<open>One day of a status read: what it leaves alone and what it does to the cache.\<close>

lemma statusDay_frame:
  assumes "statusDay L orgId d st = Some (r, st')"
  shows "settings st' = settings st" "lockedDays st' = lockedDays st"
    "bookedSlots st' = bookedSlots st" "appointments st' = appointments st"
  using assms
  by (auto simp: statusDay_def Let_def split: option.splits sum.splits prod.splits)

lemma statusDay_cached:
  assumes "statusDay L orgId d st = Some (r, st')"
    and "cachedSlots st org date = Some slots"
  shows "\<exists>slots'. cachedSlots st' org date = Some slots' \<and> list_all2 noBetter slots slots'"
  using assms markBooked_noBetter [of slots "bookedSlots st d"] noBetter_refl [of slots]
  by (auto simp: statusDay_def cachedSlots_def Let_def
      split: option.splits sum.splits prod.splits if_splits)

lemma statusDay_status:
  assumes "statusDay L orgId d st = Some (Inr s, st')"
  shows "dayStatusOf st' orgId d = Some s"
    and "date \<noteq> d \<Longrightarrow> dayStatusOf st' orgId date = dayStatusOf st orgId date"
  using assms
  by (auto simp: statusDay_def dayStatusOf_def cachedSlots_def Let_def
      split: option.splits sum.splits prod.splits if_splits)

lemma statusDays_frame:
  "statusDays L orgId days S st = Some (r, st') \<Longrightarrow>
   settings st' = settings st \<and> lockedDays st' = lockedDays st
   \<and> bookedSlots st' = bookedSlots st \<and> appointments st' = appointments st"
proof (induction days arbitrary: S st)
  case Nil
  then show ?case by simp
next
  case (Cons d days)
  show ?case
  proof (cases "statusDay L orgId d st")
    case None
    then show ?thesis using Cons.prems by simp
  next
    case (Some p)
    obtain r1 st1 where p: "p = (r1, st1)" by (cases p)
    note f = statusDay_frame [OF Some [unfolded p]]
    show ?thesis
    proof (cases r1)
      case (Inl e)
      then show ?thesis using Cons.prems Some p f by simp
    next
      case (Inr s)
      then have "statusDays L orgId days (AList.update d s S) st1 = Some (r, st')"
        using Cons.prems Some p by simp
      from Cons.IH [OF this] show ?thesis using f by simp
    qed
  qed
qed

lemma statusDays_cached:
  "statusDays L orgId days S st = Some (r, st') \<Longrightarrow>
   cachedSlots st org date = Some slots \<Longrightarrow>
   \<exists>slots'. cachedSlots st' org date = Some slots' \<and> list_all2 noBetter slots slots'"
proof (induction days arbitrary: S st slots)
  case Nil
  then show ?case using noBetter_refl by auto
next
  case (Cons d days)
  show ?case
  proof (cases "statusDay L orgId d st")
    case None
    then show ?thesis using Cons.prems by simp
  next
    case (Some p)
    obtain r1 st1 where p: "p = (r1, st1)" by (cases p)
    from statusDay_cached [OF Some [unfolded p] Cons.prems(2)]
    obtain slots1 where c1: "cachedSlots st1 org date = Some slots1"
      and n1: "list_all2 noBetter slots slots1" by blast
    show ?thesis
    proof (cases r1)
      case (Inl e)
      then show ?thesis using Cons.prems Some p c1 n1 by auto
    next
      case (Inr s)
      then have "statusDays L orgId days (AList.update d s S) st1 = Some (r, st')"
        using Cons.prems Some p by simp
      from Cons.IH [OF this c1] n1 show ?thesis
        by (blast intro: noBetter_trans)
    qed
  qed
qed

text \<open>
  A status read reports, for every day of the range, the status of that day as the
  stores have it when the read ends.
\<close>

lemma statusDays_reports:
  "statusDays L orgId days S st = Some (Inr S', st') \<Longrightarrow>
   (\<forall>d s. map_of S d = Some s \<longrightarrow> dayStatusOf st orgId d = Some s) \<Longrightarrow>
   (\<forall>d s. map_of S' d = Some s \<longrightarrow> dayStatusOf st' orgId d = Some s)
   \<and> (\<forall>d\<in>set days. map_of S' d \<noteq> None)
   \<and> (\<forall>d. map_of S d \<noteq> None \<longrightarrow> map_of S' d \<noteq> None)"
proof (induction days arbitrary: S st)
  case Nil
  then show ?case by simp
next
  case (Cons d days)
  from Cons.prems(1) obtain s st1 where
    day: "statusDay L orgId d st = Some (Inr s, st1)"
    and rest: "statusDays L orgId days (AList.update d s S) st1 = Some (Inr S', st')"
    by (auto split: option.splits sum.splits prod.splits)
  have inv: "\<forall>d' s'. map_of (AList.update d s S) d' = Some s' \<longrightarrow> dayStatusOf st1 orgId d' = Some s'"
    using Cons.prems(2) statusDay_status [OF day]
    by (auto simp: update_conv')
  from Cons.IH [OF rest inv] show ?case
    by (auto simp: update_conv')
qed

text \<open>
  The requests, for an organization that has settings: its settings stay, a cached day
  stays cached with slots that are no better than before unless the request replaces the
  entry, and a locked date stays locked unless the request unlocks it.
\<close>

lemma getSlotStatus_keeps:
  assumes "getSlotStatus L u a b st = Some (resp, st')"
    and "settings st org \<noteq> None"
  shows "settings st' org = settings st org"
    and "lockedDays st' org = lockedDays st org"
    and "bookedSlots st' = bookedSlots st"
    and "cachedSlots st org date = Some slots \<Longrightarrow>
         \<exists>slots'. cachedSlots st' org date = Some slots' \<and> list_all2 noBetter slots slots'"
proof -
  show "settings st' org = settings st org" "lockedDays st' org = lockedDays st org"
    "bookedSlots st' = bookedSlots st"
    using assms ensureSettings_keeps [OF assms(2)] ensureSettings_frame(1)
    by (auto simp: getSlotStatus_def Let_def
        split: option.splits sum.splits prod.splits if_splits dest!: statusDays_frame)
next
  assume c: "cachedSlots st org date = Some slots"
  show "\<exists>slots'. cachedSlots st' org date = Some slots' \<and> list_all2 noBetter slots slots'"
  proof (cases "userId u")
    case None
    then show ?thesis using assms(1) c noBetter_refl by (auto simp: getSlotStatus_def)
  next
    case (Some orgId)
    let ?st1 = "ensureSettings orgId st"
    let ?st2 = "if timeSlots ?st1 orgId = None
                then ?st1\<lparr>timeSlots := (timeSlots ?st1)(orgId \<mapsto> Map.empty)\<rparr> else ?st1"
    have c2: "cachedSlots ?st2 org date = Some slots"
      using c ensureSettings_keeps(3) [OF assms(2), of orgId]
      by (auto simp: cachedSlots_def split: option.splits)
    show ?thesis
    proof (cases "\<exists>days r. a \<noteq> None \<and> b \<noteq> None \<and> the a \<noteq> [] \<and> the b \<noteq> []
                    \<and> eachDay L (the a) (the b) = Some days
                    \<and> statusDays L orgId days [] ?st2 = Some (r, st')")
      case True
      then obtain days r where "statusDays L orgId days [] ?st2 = Some (r, st')" by blast
      from statusDays_cached [OF this c2] show ?thesis .
    next
      case False
      then have "st' = st \<or> st' = ?st2"
        using assms(1) Some
        by (auto simp: getSlotStatus_def Let_def
            split: option.splits sum.splits prod.splits if_splits)
      then show ?thesis using c c2 noBetter_refl by auto
    qed
  qed
qed

lemma handle_settings:
  assumes "handle L r st = Some (resp, st')" and "settings st org \<noteq> None"
  shows "settings st' org \<noteq> None"
proof (cases r)
  case (GetSettings u)
  then show ?thesis using assms ensureSettings_frame(4) [OF assms(2)]
    by (auto simp: getSettings_def Let_def split: option.splits)
next
  case (PutSettings u b)
  then show ?thesis using assms ensureSettings_frame(4) [OF assms(2)]
    by (auto simp: putSettings_def Let_def split: option.splits if_splits)
next
  case (GetSlotStatus u a b)
  then show ?thesis using assms getSlotStatus_keeps(1) [of L u a b st resp st' org] by simp
next
  case (GetSlots u date)
  then show ?thesis using assms
    by (auto simp: getSlots_def Let_def split: option.splits sum.splits prod.splits)
next
  case (PutSlots u date slots)
  then show ?thesis using assms
    by (auto simp: putSlots_def Let_def split: option.splits)
next
  case (PutLockedDay u date locks)
  then show ?thesis using assms
    by (auto simp: putLockedDay_def split: option.splits if_splits)
next
  case (CreateAppointment u b)
  then show ?thesis using assms
    by (auto simp: createAppointment_def Let_def split: option.splits if_splits)
next
  case (UpdateStatus u i s)
  then show ?thesis using assms
    by (auto simp: updateStatus_def Let_def split: option.splits if_splits)
next
  case (CancelAppointment u i)
  then show ?thesis using assms
    by (auto simp: cancelAppointment_def Let_def split: option.splits if_splits)
qed

lemma handle_cached:
  assumes "handle L r st = Some (resp, st')" and "settings st org \<noteq> None"
    and "cachedSlots st org date = Some slots"
    and "\<not> replacesCache org date r"
  shows "\<exists>slots'. cachedSlots st' org date = Some slots' \<and> list_all2 noBetter slots slots'"
proof (cases r)
  case (GetSettings u)
  then show ?thesis using assms ensureSettings_keeps(3) [OF assms(2)] noBetter_refl [of slots]
    by (auto simp: getSettings_def cachedSlots_def Let_def split: option.splits)
next
  case (PutSettings u b)
  then show ?thesis using assms ensureSettings_keeps(3) [OF assms(2)] noBetter_refl [of slots]
    by (auto simp: putSettings_def replacesCache_def cachedSlots_def Let_def
        split: option.splits if_splits)
next
  case (GetSlotStatus u a b)
  then show ?thesis using assms getSlotStatus_keeps(4) [of L u a b st resp st' org date slots]
    by simp
next
  case (GetSlots u d)
  then show ?thesis using assms noBetter_refl [of slots]
    by (auto simp: getSlots_def [of L u d st] cachedSlots_def [of _ org] Let_def
        split: option.splits sum.splits prod.splits)
next
  case (PutSlots u d new)
  then show ?thesis using assms noBetter_refl [of slots]
    by (auto simp: putSlots_def replacesCache_def cachedSlots_def Let_def
        split: option.splits if_splits)
next
  case (PutLockedDay u d locks)
  then show ?thesis using assms noBetter_refl [of slots]
    by (auto simp: putLockedDay_def cachedSlots_def split: option.splits if_splits)
next
  case (CreateAppointment u b)
  then show ?thesis using assms noBetter_refl [of slots]
    by (auto simp: createAppointment_def cachedSlots_def Let_def split: option.splits if_splits)
next
  case (UpdateStatus u i s)
  then show ?thesis using assms noBetter_refl [of slots]
    by (auto simp: updateStatus_def cachedSlots_def Let_def split: option.splits if_splits)
next
  case (CancelAppointment u i)
  then show ?thesis using assms noBetter_refl [of slots]
    by (auto simp: cancelAppointment_def cachedSlots_def Let_def split: option.splits if_splits)
qed

lemma handle_locked:
  assumes "handle L r st = Some (resp, st')" and "settings st org \<noteq> None"
    and "lockedDays st org = Some locked" and "date \<in> set locked"
    and "\<not> unlocks org date r"
  shows "\<exists>locked'. lockedDays st' org = Some locked' \<and> date \<in> set locked'"
proof (cases r)
  case (GetSettings u)
  then show ?thesis using assms ensureSettings_keeps(2) [OF assms(2)]
    by (auto simp: getSettings_def Let_def split: option.splits)
next
  case (PutSettings u b)
  then show ?thesis using assms ensureSettings_keeps(2) [OF assms(2)]
    by (auto simp: putSettings_def Let_def split: option.splits if_splits)
next
  case (GetSlotStatus u a b)
  then show ?thesis using assms getSlotStatus_keeps(2) [of L u a b st resp st' org] by simp
next
  case (GetSlots u d)
  then show ?thesis using assms
    by (auto simp: getSlots_def Let_def split: option.splits sum.splits prod.splits)
next
  case (PutSlots u d new)
  then show ?thesis using assms
    by (auto simp: putSlots_def Let_def split: option.splits)
next
  case (PutLockedDay u d locks)
  then show ?thesis using assms
    by (auto simp: putLockedDay_def unlocks_def split: option.splits if_splits)
next
  case (CreateAppointment u b)
  then show ?thesis using assms
    by (auto simp: createAppointment_def Let_def split: option.splits if_splits)
next
  case (UpdateStatus u i s)
  then show ?thesis using assms
    by (auto simp: updateStatus_def Let_def split: option.splits if_splits)
next
  case (CancelAppointment u i)
  then show ?thesis using assms
    by (auto simp: cancelAppointment_def Let_def split: option.splits if_splits)
qed

lemma run_settings:
  "run L rs st = Some (resps, st') \<Longrightarrow> settings st org \<noteq> None \<Longrightarrow> settings st' org \<noteq> None"
proof (induction rs arbitrary: st resps)
  case Nil
  then show ?case by simp
next
  case (Cons r rs)
  from Cons.prems(1) obtain resp st1 resps1 where
    h: "handle L r st = Some (resp, st1)" and t: "run L rs st1 = Some (resps1, st')"
    by (auto split: option.splits prod.splits)
  from Cons.IH [OF t handle_settings [OF h Cons.prems(2)]] show ?case .
qed

lemma run_cached:
  "run L rs st = Some (resps, st') \<Longrightarrow> settings st org \<noteq> None \<Longrightarrow>
   cachedSlots st org date = Some slots \<Longrightarrow>
   list_all (\<lambda>r. \<not> replacesCache org date r) rs \<Longrightarrow>
   \<exists>slots'. cachedSlots st' org date = Some slots' \<and> list_all2 noBetter slots slots'"
proof (induction rs arbitrary: st resps slots)
  case Nil
  then show ?case using noBetter_refl by auto
next
  case (Cons r rs)
  from Cons.prems(1) obtain resp st1 resps1 where
    h: "handle L r st = Some (resp, st1)" and t: "run L rs st1 = Some (resps1, st')"
    by (auto split: option.splits prod.splits)
  from Cons.prems(4) have nr: "\<not> replacesCache org date r"
    and rest: "list_all (\<lambda>r. \<not> replacesCache org date r) rs" by simp_all
  from handle_cached [OF h Cons.prems(2,3) nr] obtain slots1 where
    c1: "cachedSlots st1 org date = Some slots1" and n1: "list_all2 noBetter slots slots1"
    by blast
  from Cons.IH [OF t handle_settings [OF h Cons.prems(2)] c1 rest] n1
  show ?case by (blast intro: noBetter_trans)
qed

lemma run_locked:
  "run L rs st = Some (resps, st') \<Longrightarrow> settings st org \<noteq> None \<Longrightarrow>
   lockedDays st org = Some locked \<Longrightarrow> date \<in> set locked \<Longrightarrow>
   list_all (\<lambda>r. \<not> unlocks org date r) rs \<Longrightarrow>
   \<exists>locked'. lockedDays st' org = Some locked' \<and> date \<in> set locked'"
proof (induction rs arbitrary: st resps locked)
  case Nil
  then show ?case by auto
next
  case (Cons r rs)
  from Cons.prems(1) obtain resp st1 resps1 where
    h: "handle L r st = Some (resp, st1)" and t: "run L rs st1 = Some (resps1, st')"
    by (auto split: option.splits prod.splits)
  from Cons.prems(5) have nr: "\<not> unlocks org date r"
    and rest: "list_all (\<lambda>r. \<not> unlocks org date r) rs" by simp_all
  from handle_locked [OF h Cons.prems(2,3,4) nr] obtain locked1 where
    l1: "lockedDays st1 org = Some locked1" and d1: "date \<in> set locked1" by blast
  from Cons.IH [OF t handle_settings [OF h Cons.prems(2)] l1 d1 rest]
  show ?case .
qed

text \<open>The states reached from the empty stores are well-formed.\<close>

lemma statusDay_domain:
  assumes "statusDay L orgId d st = Some (r, st')"
  shows "(timeSlots st' org = None) = (timeSlots st org = None)"
  using assms
  by (auto simp: statusDay_def Let_def split: option.splits sum.splits prod.splits if_splits)

lemma statusDays_domain:
  "statusDays L orgId days S st = Some (r, st') \<Longrightarrow>
   (timeSlots st' org = None) = (timeSlots st org = None)"
proof (induction days arbitrary: S st)
  case Nil
  then show ?case by simp
next
  case (Cons d days)
  show ?case
  proof (cases "statusDay L orgId d st")
    case None
    then show ?thesis using Cons.prems by simp
  next
    case (Some p)
    obtain r1 st1 where p: "p = (r1, st1)" by (cases p)
    note f = statusDay_domain [OF Some [unfolded p], of org]
    show ?thesis
    proof (cases r1)
      case (Inl e)
      then show ?thesis using Cons.prems Some p f by simp
    next
      case (Inr s)
      then have "statusDays L orgId days (AList.update d s S) st1 = Some (r, st')"
        using Cons.prems Some p by simp
      from Cons.IH [OF this] show ?thesis using f by simp
    qed
  qed
qed

lemma ensureSettings_wellFormed: "wellFormed st \<Longrightarrow> wellFormed (ensureSettings orgId st)"
  by (auto simp: wellFormed_def ensureSettings_def initializeOrganizationSettings_def)

lemma ensureSettings_has: "settings (ensureSettings orgId st) orgId \<noteq> None"
  by (auto simp: ensureSettings_def initializeOrganizationSettings_def)

lemma getSlotStatus_wellFormed:
  assumes "getSlotStatus L u a b st = Some (resp, st')" and "wellFormed st"
  shows "wellFormed st'"
proof (cases "userId u")
  case None
  then show ?thesis using assms by (simp add: getSlotStatus_def)
next
  case (Some orgId)
  let ?st1 = "ensureSettings orgId st"
  let ?st2 = "if timeSlots ?st1 orgId = None
              then ?st1\<lparr>timeSlots := (timeSlots ?st1)(orgId \<mapsto> Map.empty)\<rparr> else ?st1"
  have w2: "wellFormed ?st2"
    using ensureSettings_wellFormed [OF assms(2), of orgId] ensureSettings_has [of orgId st]
    by (auto simp: wellFormed_def)
  show ?thesis
  proof (cases "\<exists>days r. a \<noteq> None \<and> b \<noteq> None \<and> the a \<noteq> [] \<and> the b \<noteq> []
                  \<and> eachDay L (the a) (the b) = Some days
                  \<and> statusDays L orgId days [] ?st2 = Some (r, st')")
    case True
    then obtain days r where run: "statusDays L orgId days [] ?st2 = Some (r, st')" by blast
    from statusDays_frame [OF run] statusDays_domain [OF run] w2
    show ?thesis unfolding wellFormed_def by metis
  next
    case False
    then have "st' = st \<or> st' = ?st2"
      using assms(1) Some
      by (auto simp: getSlotStatus_def Let_def
          split: option.splits sum.splits prod.splits if_splits)
    then show ?thesis using assms(2) w2 by auto
  qed
qed

lemma handle_wellFormed:
  assumes "handle L r st = Some (resp, st')" and "wellFormed st"
  shows "wellFormed st'"
proof (cases r)
  case (GetSettings u)
  then show ?thesis using assms ensureSettings_wellFormed [OF assms(2)]
    by (auto simp: getSettings_def Let_def split: option.splits)
next
  case (PutSettings u b)
  then show ?thesis using assms
    by (auto simp: putSettings_def wellFormed_def ensureSettings_def
        initializeOrganizationSettings_def Let_def split: option.splits if_splits)
next
  case (GetSlotStatus u a b)
  then show ?thesis using assms getSlotStatus_wellFormed by simp
next
  case (GetSlots u date)
  then show ?thesis using assms
    by (auto simp: getSlots_def wellFormed_def Let_def
        split: option.splits sum.splits prod.splits)
next
  case (PutSlots u date slots)
  then show ?thesis using assms
    by (auto simp: putSlots_def wellFormed_def Let_def split: option.splits if_splits)
next
  case (PutLockedDay u date locks)
  then show ?thesis using assms
    by (auto simp: putLockedDay_def wellFormed_def split: option.splits if_splits)
next
  case (CreateAppointment u b)
  then show ?thesis using assms
    by (auto simp: createAppointment_def wellFormed_def Let_def split: option.splits if_splits)
next
  case (UpdateStatus u i s)
  then show ?thesis using assms
    by (auto simp: updateStatus_def wellFormed_def Let_def split: option.splits if_splits)
next
  case (CancelAppointment u i)
  then show ?thesis using assms
    by (auto simp: cancelAppointment_def wellFormed_def Let_def split: option.splits if_splits)
qed

lemma run_wellFormed:
  "run L rs st = Some (resps, st') \<Longrightarrow> wellFormed st \<Longrightarrow> wellFormed st'"
proof (induction rs arbitrary: st resps)
  case Nil
  then show ?case by simp
next
  case (Cons r rs)
  from Cons.prems(1) obtain resp st1 resps1 where
    h: "handle L r st = Some (resp, st1)" and t: "run L rs st1 = Some (resps1, st')"
    by (auto split: option.splits prod.splits)
  from Cons.IH [OF t handle_wellFormed [OF h Cons.prems(2)]] show ?case .
qed

lemma reachable_wellFormed: "run L rs emptyStore = Some (resps, st) \<Longrightarrow> wellFormed st"
  by (erule run_wellFormed) (simp add: wellFormed_def emptyStore_def)

text \<open>
  So the hypothesis \<open>settings st orgId \<noteq> None\<close> of the theorems below holds in every
  reachable state in which the organization has a cached day or can lock a day.
\<close>

lemma cached_has_settings:
  "wellFormed st \<Longrightarrow> cachedSlots st orgId date = Some slots \<Longrightarrow> settings st orgId \<noteq> None"
  by (auto simp: wellFormed_def cachedSlots_def split: option.splits)

lemma locking_has_settings:
  assumes "wellFormed st" and "userId u = Some orgId"
    and "putLockedDay u date locks st = ((200, bd), st1)"
  shows "settings st orgId \<noteq> None"
  using assms by (auto simp: wellFormed_def putLockedDay_def split: option.splits)

lemma getSlotStatus_reports:
  assumes "getSlotStatus L u (Some a) (Some b) st = Some ((200, StatusesBody S), st')"
    and "userId u = Some orgId" and "eachDay L a b = Some days"
  shows "\<forall>d\<in>set days. \<exists>s. map_of S d = Some s \<and> dayStatusOf st' orgId d = Some s"
proof -
  let ?st1 = "ensureSettings orgId st"
  let ?st2 = "if timeSlots ?st1 orgId = None
              then ?st1\<lparr>timeSlots := (timeSlots ?st1)(orgId \<mapsto> Map.empty)\<rparr> else ?st1"
  from assms have "statusDays L orgId days [] ?st2 = Some (Inr S, st')"
    by (auto simp: getSlotStatus_def Let_def
        split: option.splits sum.splits prod.splits if_splits)
  from statusDays_reports [OF this] show ?thesis by auto
qed

section \<open>Cached availability\<close>

text \<open>
  C9. Take an organization that has settings and a day it has cached. Through any
  sequence of requests none of which is the organization's \<open>PUT /settings\<close> or its
  \<open>PUT /slots/:date\<close> for that date (bookings and cancellations included), the day stays
  cached with the same slots, and a slot of the day is available afterwards only if it was
  available before: no request, and no status read in particular, makes a cached slot
  available again. A status read of the organization after the sequence reports the day with
  the same total and with no more available slots than the cache had at the start.
\<close>

theorem cached_slot_stays_unavailable:
  assumes "settings st orgId \<noteq> None"
    and "cachedSlots st orgId date = Some slots"
    and "list_all (\<lambda>r. \<not> replacesCache orgId date r) rs"
    and "run L rs st = Some (resps, st')"
  shows "(\<exists>slots'. cachedSlots st' orgId date = Some slots' \<and> list_all2 noBetter slots slots')
         \<and> (\<forall>u a b days statuses st''.
               userId u = Some orgId \<longrightarrow> eachDay L a b = Some days \<longrightarrow> date \<in> set days \<longrightarrow>
               getSlotStatus L u (Some a) (Some b) st' = Some ((200, StatusesBody statuses), st'') \<longrightarrow>
               (\<exists>s. map_of statuses date = Some s
                    \<and> totalSlots s = length slots
                    \<and> availableSlots s \<le> length (filter isAvailable slots)))"
proof -
  from run_cached [OF assms(4,1,2,3)] obtain slots' where
    c': "cachedSlots st' orgId date = Some slots'" and n': "list_all2 noBetter slots slots'"
    by blast
  have s': "settings st' orgId \<noteq> None" using run_settings [OF assms(4,1)] .
  have "\<exists>s. map_of statuses date = Some s
            \<and> totalSlots s = length slots
            \<and> availableSlots s \<le> length (filter isAvailable slots)"
    if u: "userId u = Some orgId" and days: "eachDay L a b = Some days" and d: "date \<in> set days"
      and read: "getSlotStatus L u (Some a) (Some b) st' = Some ((200, StatusesBody statuses), st'')"
    for u a b days statuses st''
  proof -
    from getSlotStatus_keeps(4) [OF read s' c'] obtain slots'' where
      c'': "cachedSlots st'' orgId date = Some slots''" and n'': "list_all2 noBetter slots' slots''"
      by blast
    from getSlotStatus_reports [OF read u days] d obtain s where
      s: "map_of statuses date = Some s" and ds: "dayStatusOf st'' orgId date = Some s"
      by blast
    from ds c'' have "totalSlots s = length slots''"
      and "availableSlots s = length (filter isAvailable slots'')"
      by (auto simp: dayStatusOf_def split: option.splits)
    moreover from noBetter_counts [OF noBetter_trans [OF n' n'']]
    have "length slots'' = length slots"
      and "length (filter isAvailable slots'') \<le> length (filter isAvailable slots)"
      by simp_all
    ultimately show ?thesis using s by simp
  qed
  then show ?thesis using c' n' by blast
qed

section \<open>The examples, step by step\<close>

lemma utcLib_one_day: "eachDay utcLib ''2024-01-15'' ''2024-01-15'' = Some [''2024-01-15'']"
  by (simp add: utcLib_def parseYMD_def digitVal_def daysInMonth_def isLeapYear_def
      showYMD_def pad2_def digitChar_def dayNumber_def)

lemma utcLib_uuids: "uuidv4 utcLib 0 = ''uuid-0''" "uuidv4 utcLib 16 = ''uuid-16''"
  by (simp_all add: utcLib_def decimal.simps digitChar_def)

lemma utcLib_random: "randomNumber utcLib 0 = ''100000''"
  by (simp add: utcLib_def decimal.simps digitChar_def)

lemma org1_id: "userId org1 = Some ''org1''"
  by (simp add: userId_def org1_def)

lemma generate_monday:
  "generateTimeSlots utcLib n ''2024-01-15'' defaultSettings
     = Some (Inr (map (slotAt utcLib defaultSettings 540 n) [0..<16], n + 16))"
proof -
  let ?h = "\<lparr>day = ''Monday'', bh_start = ''09:00'', bh_end = ''17:00'', isOpen = True\<rparr>"
  have f: "find (\<lambda>h. day h = ''Monday'') (businessHours defaultSettings) = Some ?h"
    by (simp add: defaultSettings_def)
  have d: "slotDuration defaultSettings = 30" and st: "stepMinutes defaultSettings = 30"
    by (simp_all add: stepMinutes_def defaultSettings_def)
  have cnt: "slotCount defaultSettings 540 1020 = 16"
    by (simp add: slotCount_def d st)
  show ?thesis
    using generateTimeSlots_open [OF utcLib_monday f, of 540 1020 n]
    by (simp add: parse_nine parse_five cnt d st)
qed

lemma monday_available:
  "filter isAvailable (map (slotAt L c t n) ks) = map (slotAt L c t n) ks"
  by (induction ks) (simp_all add: slotAt_def)

lemma monday_booked:
  "markBooked (Some \<lparr>bk_organizationId = a, bk_appointmentId = i,
                       bk_timeSlots = [\<lparr>st_start = ''09:00'', st_end = ''09:30''\<rparr>]\<rparr>)
     (map (slotAt utcLib defaultSettings 540 0) [0..<16]) = mondayBooked"
  by (simp add: markBooked_def mondayBooked_def isBooked_def upt_rec slotAt_def stepMinutes_def
      defaultSettings_def formatHHmm_def pad2_def digitChar_def utcLib_uuids)

lemma mondayBooked_again: "markBooked None mondayBooked = mondayBooked"
  by (simp add: markBooked_def)

lemma mondayBooked_counts:
  "length mondayBooked = 16" "length (filter isAvailable mondayBooked) = 15"
  by (simp_all add: mondayBooked_def monday_available del: upt_Suc)

lemma reach_seen:
  "run utcLib
     [GetSlotStatus org1 (Some ''2024-01-15'') (Some ''2024-01-15''),
      CreateAppointment ind1 booking1,
      GetSlotStatus org1 (Some ''2024-01-15'') (Some ''2024-01-15'')] emptyStore
   = Some ([(200, StatusesBody [(''2024-01-15'',
                \<lparr>isLocked = False, availableSlots = 16, totalSlots = 16\<rparr>)]),
            (201, AppointmentBody apt1),
            (200, StatusesBody [(''2024-01-15'',
                \<lparr>isLocked = False, availableSlots = 15, totalSlots = 16\<rparr>)])],
           storeSeen)"
proof -
  let ?d = "''2024-01-15''"
  let ?M = "map (slotAt utcLib defaultSettings 540 0) [0..<16]"
  let ?s1 = "\<lparr>settings = [''org1'' \<mapsto> defaultSettings],
              timeSlots = [''org1'' \<mapsto> [?d \<mapsto> ?M]],
              lockedDays = [''org1'' \<mapsto> []],
              appointments = [], bookedSlots = Map.empty, uuids = 16, randoms = 0\<rparr>"
  let ?s2 = "?s1\<lparr>appointments := [apt1],
                  bookedSlots := [?d \<mapsto>
                       \<lparr>bk_organizationId = ''org1'', bk_appointmentId = ''uuid-16'',
                        bk_timeSlots = [\<lparr>st_start = ''09:00'', st_end = ''09:30''\<rparr>]\<rparr>],
                  uuids := 17, randoms := 1\<rparr>"
  have r1: "getSlotStatus utcLib org1 (Some ?d) (Some ?d) emptyStore
            = Some ((200, StatusesBody [(?d, \<lparr>isLocked = False, availableSlots = 16, totalSlots = 16\<rparr>)]),
                    ?s1)"
    by (simp add: getSlotStatus_def org1_id ensureSettings_def
        initializeOrganizationSettings_def emptyStore_def utcLib_one_day statusDay_def
        generateFor_def generate_monday markBooked_def monday_available Let_def del: upt_Suc)
  have r2: "createAppointment utcLib ind1 booking1 ?s1 = ((201, AppointmentBody apt1), ?s2)"
    using utcLib_ymd booking1_schema [of "''org1''"]
    by (simp add: createAppointment_def ind1_def booking1_def apt1_def Let_def
        utcLib_uuids utcLib_random del: upt_Suc)
  have r3: "getSlotStatus utcLib org1 (Some ?d) (Some ?d) ?s2
            = Some ((200, StatusesBody [(?d, \<lparr>isLocked = False, availableSlots = 15, totalSlots = 16\<rparr>)]),
                    storeSeen)"
    by (simp add: getSlotStatus_def org1_id ensureSettings_def utcLib_one_day statusDay_def
        monday_booked mondayBooked_counts storeSeen_def Let_def del: upt_Suc)
  have t3: "run utcLib [GetSlotStatus org1 (Some ?d) (Some ?d)] ?s2
            = Some ([(200, StatusesBody [(?d, \<lparr>isLocked = False, availableSlots = 15, totalSlots = 16\<rparr>)])],
                    storeSeen)"
    using r3 by simp
  have t2: "run utcLib [CreateAppointment ind1 booking1, GetSlotStatus org1 (Some ?d) (Some ?d)] ?s1
            = Some ([(201, AppointmentBody apt1),
                     (200, StatusesBody [(?d, \<lparr>isLocked = False, availableSlots = 15, totalSlots = 16\<rparr>)])],
                    storeSeen)"
    using r2 t3 by simp
  show ?thesis using r1 t2 by simp
qed

lemma cancel_seen:
  "cancelAppointment utcLib ind1 ''uuid-16'' storeSeen
     = ((200, AppointmentBody (apt1\<lparr>status := cancelled\<rparr>)), storeCancelled)"
  using utcLib_ymd
  by (simp add: cancelAppointment_def ind1_def storeSeen_def storeCancelled_def apt1_def
      removeBookedSlot_def Let_def)

lemma status_cancelled:
  "getSlotStatus utcLib org1 (Some ''2024-01-15'') (Some ''2024-01-15'') storeCancelled
     = Some ((200, StatusesBody [(''2024-01-15'',
                \<lparr>isLocked = False, availableSlots = 15, totalSlots = 16\<rparr>)]),
             storeCancelled)"
  by (simp add: getSlotStatus_def org1_id ensureSettings_def utcLib_one_day statusDay_def
      mondayBooked_again mondayBooked_counts storeSeen_def storeCancelled_def Let_def)

lemma slots_cancelled:
  "getSlots utcLib org1 ''2024-01-15'' storeCancelled
     = Some ((200, SlotsBody mondayBooked False), storeCancelled)"
  by (simp add: getSlots_def org1_id cachedSlots_def mondayBooked_again
      storeSeen_def storeCancelled_def Let_def)

lemma run_append:
  "run L (xs @ ys) st =
     (case run L xs st of
        None \<Rightarrow> None
      | Some (r1, st1) \<Rightarrow>
          (case run L ys st1 of None \<Rightarrow> None | Some (r2, st2) \<Rightarrow> Some (r1 @ r2, st2)))"
  by (induction xs arbitrary: st) (auto split: option.splits)

lemma run_after_cancel:
  "run utcLib
     [CancelAppointment ind1 ''uuid-16'',
      GetSlotStatus org1 (Some ''2024-01-15'') (Some ''2024-01-15''),
      GetSlots org1 ''2024-01-15''] storeSeen
   = Some ([(200, AppointmentBody (apt1\<lparr>status := cancelled\<rparr>)),
            (200, StatusesBody [(''2024-01-15'',
                \<lparr>isLocked = False, availableSlots = 15, totalSlots = 16\<rparr>)]),
            (200, SlotsBody mondayBooked False)],
           storeCancelled)"
  by (simp add: cancel_seen status_cancelled slots_cancelled)

section \<open>Cancelling an appointment\<close>

text \<open>
  Both cancelling requests, when they succeed, leave no slot in the index entry of the
  appointment's date that starts when the appointment starts. A read that then takes
  the day's slots from the generator, or from a cache in which the slot is still
  available, reports the slot available.
\<close>

lemma removeBookedSlot_removes:
  "case removeBookedSlot dateStr apt idx dateStr of
     None \<Rightarrow> True
   | Some e \<Rightarrow> \<forall>slot\<in>set (bk_timeSlots e). st_start slot \<noteq> st_start (timeSlot apt)"
  by (auto simp: removeBookedSlot_def Let_def split: option.splits)

lemma cancelAppointment_removes_entry:
  assumes "cancelAppointment L u i st = ((200, AppointmentBody apt), st')"
    and "formatYMD L (ap_date apt) = Some dateStr"
  shows "case bookedSlots st' dateStr of
           None \<Rightarrow> True
         | Some e \<Rightarrow> \<forall>slot\<in>set (bk_timeSlots e). st_start slot \<noteq> st_start (timeSlot apt)"
proof -
  from assms obtain found where
    apt: "apt = found\<lparr>status := cancelled\<rparr>"
    and st': "bookedSlots st' = removeBookedSlot dateStr apt (bookedSlots st)"
    by (auto simp: cancelAppointment_def Let_def split: option.splits if_splits)
  show ?thesis unfolding st' by (rule removeBookedSlot_removes)
qed

lemma updateStatus_removes_entry:
  assumes "updateStatus L u i cancelled st = ((200, AppointmentBody apt), st')"
    and "formatYMD L (ap_date apt) = Some dateStr"
  shows "case bookedSlots st' dateStr of
           None \<Rightarrow> True
         | Some e \<Rightarrow> \<forall>slot\<in>set (bk_timeSlots e). st_start slot \<noteq> st_start (timeSlot apt)"
proof -
  from assms obtain found where
    apt: "apt = found\<lparr>status := cancelled\<rparr>"
    and st': "bookedSlots st' = removeBookedSlot dateStr apt (bookedSlots st)"
    by (auto simp: updateStatus_def Let_def split: option.splits if_splits)
  show ?thesis unfolding st' by (rule removeBookedSlot_removes)
qed

lemma markBooked_free:
  assumes "case entry of None \<Rightarrow> True
           | Some e \<Rightarrow> \<forall>b\<in>set (bk_timeSlots e). st_start b \<noteq> ts_start slot"
    and "slot \<in> set slots"
  shows "slot \<in> set (markBooked entry slots)"
  using assms
  by (cases entry) (auto simp: markBooked_def isBooked_def list_ex_iff image_iff)

text \<open>
  C1 fails on the code. Organization \<open>org1\<close> reads the status of 2024-01-15 (16 of 16
  slots available), \<open>ind1\<close> books 09:00-09:30, \<open>org1\<close> reads the status again (15 of 16),
  \<open>ind1\<close> cancels. The entry is removed from the booked-slots index, and yet the next
  status read still counts 15 available slots and the next \<open>GET /slots/:date\<close> still
  reports 09:00-09:30 unavailable: the status read before the cancellation wrote
  \<open>isAvailable = false\<close> into the cached slot, and nothing sets it back.
\<close>

theorem cancel_leaves_cached_slot_unavailable:
  "map_option (\<lambda>r. (fst r, bookedSlots (snd r) ''2024-01-15''))
     (run utcLib
        [GetSlotStatus org1 (Some ''2024-01-15'') (Some ''2024-01-15''),
         CreateAppointment ind1 booking1,
         GetSlotStatus org1 (Some ''2024-01-15'') (Some ''2024-01-15''),
         CancelAppointment ind1 ''uuid-16'',
         GetSlotStatus org1 (Some ''2024-01-15'') (Some ''2024-01-15''),
         GetSlots org1 ''2024-01-15''] emptyStore)
   = Some ([(200, StatusesBody [(''2024-01-15'',
                \<lparr>isLocked = False, availableSlots = 16, totalSlots = 16\<rparr>)]),
            (201, AppointmentBody apt1),
            (200, StatusesBody [(''2024-01-15'',
                \<lparr>isLocked = False, availableSlots = 15, totalSlots = 16\<rparr>)]),
            (200, AppointmentBody (apt1\<lparr>status := cancelled\<rparr>)),
            (200, StatusesBody [(''2024-01-15'',
                \<lparr>isLocked = False, availableSlots = 15, totalSlots = 16\<rparr>)]),
            (200, SlotsBody
                    (\<lparr>ts_id = ''uuid-0'', ts_start = ''09:00'', ts_end = ''09:30'',
                      isAvailable = False\<rparr>
                     # map (slotAt utcLib defaultSettings 540 0) [1..<16])
                    False)],
           None)"
proof -
  have "run utcLib
         ([GetSlotStatus org1 (Some ''2024-01-15'') (Some ''2024-01-15''),
           CreateAppointment ind1 booking1,
           GetSlotStatus org1 (Some ''2024-01-15'') (Some ''2024-01-15'')]
          @ [CancelAppointment ind1 ''uuid-16'',
             GetSlotStatus org1 (Some ''2024-01-15'') (Some ''2024-01-15''),
             GetSlots org1 ''2024-01-15'']) emptyStore
        = Some ([(200, StatusesBody [(''2024-01-15'',
                \<lparr>isLocked = False, availableSlots = 16, totalSlots = 16\<rparr>)]),
            (201, AppointmentBody apt1),
            (200, StatusesBody [(''2024-01-15'',
                \<lparr>isLocked = False, availableSlots = 15, totalSlots = 16\<rparr>)])]
           @ [(200, AppointmentBody (apt1\<lparr>status := cancelled\<rparr>)),
            (200, StatusesBody [(''2024-01-15'',
                \<lparr>isLocked = False, availableSlots = 15, totalSlots = 16\<rparr>)]),
            (200, SlotsBody mondayBooked False)],
           storeCancelled)"
    by (subst run_append) (simp add: reach_seen run_after_cancel del: run.simps)
  moreover have "bookedSlots storeCancelled ''2024-01-15'' = None"
    by (simp add: storeCancelled_def)
  ultimately show ?thesis by (simp add: mondayBooked_def del: upt_Suc)
qed

text \<open>C9 on the example: the cancellation, then a status read.\<close>

theorem cached_slot_stays_unavailable_witness:
  "settings storeSeen ''org1'' \<noteq> None
   \<and> cachedSlots storeSeen ''org1'' ''2024-01-15'' = Some mondayBooked
   \<and> list_all (\<lambda>r. \<not> replacesCache ''org1'' ''2024-01-15'' r)
        [CancelAppointment ind1 ''uuid-16'']
   \<and> run utcLib [CancelAppointment ind1 ''uuid-16''] storeSeen
       = Some ([(200, AppointmentBody (apt1\<lparr>status := cancelled\<rparr>))], storeCancelled)
   \<and> bookedSlots storeCancelled ''2024-01-15'' = None
   \<and> (\<exists>slots'. cachedSlots storeCancelled ''org1'' ''2024-01-15'' = Some slots'
                 \<and> list_all2 noBetter mondayBooked slots')
   \<and> userId org1 = Some ''org1''
   \<and> eachDay utcLib ''2024-01-15'' ''2024-01-15'' = Some [''2024-01-15'']
   \<and> getSlotStatus utcLib org1 (Some ''2024-01-15'') (Some ''2024-01-15'') storeCancelled
       = Some ((200, StatusesBody [(''2024-01-15'',
                  \<lparr>isLocked = False, availableSlots = 15, totalSlots = 16\<rparr>)]),
               storeCancelled)
   \<and> (\<exists>s. map_of [(''2024-01-15'',
                     \<lparr>isLocked = False, availableSlots = 15, totalSlots = 16\<rparr>)] ''2024-01-15''
              = Some s
            \<and> totalSlots s = length mondayBooked
            \<and> availableSlots s \<le> length (filter isAvailable mondayBooked))"
proof -
  have h1: "settings storeSeen ''org1'' \<noteq> None" by (simp add: storeSeen_def)
  have h2: "cachedSlots storeSeen ''org1'' ''2024-01-15'' = Some mondayBooked"
    by (simp add: cachedSlots_def storeSeen_def)
  have h3: "list_all (\<lambda>r. \<not> replacesCache ''org1'' ''2024-01-15'' r)
              [CancelAppointment ind1 ''uuid-16'']"
    by (simp add: replacesCache_def)
  have h4: "run utcLib [CancelAppointment ind1 ''uuid-16''] storeSeen
              = Some ([(200, AppointmentBody (apt1\<lparr>status := cancelled\<rparr>))], storeCancelled)"
    by (simp add: cancel_seen)
  have idx: "bookedSlots storeCancelled ''2024-01-15'' = None"
    by (simp add: storeCancelled_def)
  note main = cached_slot_stays_unavailable [OF h1 h2 h3 h4]
  from main have c1: "\<exists>slots'. cachedSlots storeCancelled ''org1'' ''2024-01-15'' = Some slots'
                 \<and> list_all2 noBetter mondayBooked slots'"
    by (rule conjunct1)
  from main have "\<exists>s. map_of [(''2024-01-15'',
                     \<lparr>isLocked = False, availableSlots = 15, totalSlots = 16\<rparr>)] ''2024-01-15''
              = Some s
            \<and> totalSlots s = length mondayBooked
            \<and> availableSlots s \<le> length (filter isAvailable mondayBooked)"
    using org1_id utcLib_one_day status_cancelled by (meson list.set_intros(1))
  then show ?thesis
    using h1 h2 h3 h4 idx c1 org1_id utcLib_one_day status_cancelled by blast
qed

section \<open>Locked days\<close>

text \<open>
  A status read does not depend on which days are locked, except for the lock flags it
  reports: with other locked days (for an organization that has a list of locked days
  either way) every day is processed with the same outcome and the same counts.
\<close>

lemma statusDay_relock:
  assumes "(ld orgId = None) = (lockedDays st orgId = None)"
  shows "statusDay L orgId d (st\<lparr>lockedDays := ld\<rparr>)
         = map_option
             (\<lambda>r. (map_sum id (\<lambda>s. s\<lparr>isLocked := (case ld orgId of
                                                       None \<Rightarrow> False
                                                     | Some locked \<Rightarrow> d \<in> set locked)\<rparr>) (fst r),
                   (snd r)\<lparr>lockedDays := ld\<rparr>))
             (statusDay L orgId d st)"
  using assms
  by (auto simp: statusDay_def Let_def split: option.splits sum.splits prod.splits)

lemma unlock_update:
  "map (\<lambda>(d, s). (d, f s)) (AList.update k v S) = AList.update k (f v) (map (\<lambda>(d, s). (d, f s)) S)"
  by (induction S) auto

lemma statusDays_relock:
  "(ld orgId = None) = (lockedDays st orgId = None) \<Longrightarrow>
   map (\<lambda>(d, s). (d, s\<lparr>isLocked := False\<rparr>)) S1 = map (\<lambda>(d, s). (d, s\<lparr>isLocked := False\<rparr>)) S0 \<Longrightarrow>
   map_option (\<lambda>r. (map_sum id (map (\<lambda>(d, s). (d, s\<lparr>isLocked := False\<rparr>))) (fst r),
                     (snd r)\<lparr>lockedDays := ld\<rparr>))
     (statusDays L orgId days S1 (st\<lparr>lockedDays := ld\<rparr>))
   = map_option (\<lambda>r. (map_sum id (map (\<lambda>(d, s). (d, s\<lparr>isLocked := False\<rparr>))) (fst r),
                       (snd r)\<lparr>lockedDays := ld\<rparr>))
       (statusDays L orgId days S0 st)"
proof (induction days arbitrary: S1 S0 st)
  case Nil
  then show ?case by simp
next
  case (Cons d days)
  note relock = statusDay_relock [where ld = ld and orgId = orgId and st = st and L = L and d = d, OF Cons.prems(1)]
  show ?case
  proof (cases "statusDay L orgId d st")
    case None
    then show ?thesis using relock by simp
  next
    case (Some p)
    obtain r1 st1 where p: "p = (r1, st1)" by (cases p)
    have ld1: "(ld orgId = None) = (lockedDays st1 orgId = None)"
      using statusDay_frame(2) [OF Some [unfolded p]] Cons.prems(1) by simp
    show ?thesis
    proof (cases r1)
      case (Inl e)
      then show ?thesis using relock Some p by simp
    next
      case (Inr s)
      let ?s' = "s\<lparr>isLocked := (case ld orgId of None \<Rightarrow> False | Some locked \<Rightarrow> d \<in> set locked)\<rparr>"
      have acc: "map (\<lambda>(d, s). (d, s\<lparr>isLocked := False\<rparr>)) (AList.update d ?s' S1)
                 = map (\<lambda>(d, s). (d, s\<lparr>isLocked := False\<rparr>)) (AList.update d s S0)"
        using Cons.prems(2) by (simp add: unlock_update)
      from Cons.IH [OF ld1 acc] show ?thesis
        using relock Some p Inr by simp
    qed
  qed
qed

lemma getSlotStatus_days:
  assumes "settings st orgId \<noteq> None" and "userId u = Some orgId"
    and "x \<noteq> []" and "y \<noteq> []" and "eachDay L x y = Some days"
  shows "getSlotStatus L u (Some x) (Some y) st =
           (case statusDays L orgId days []
                   (if timeSlots st orgId = None
                    then st\<lparr>timeSlots := (timeSlots st)(orgId \<mapsto> Map.empty)\<rparr> else st) of
              None \<Rightarrow> None
            | Some (Inl e, st3) \<Rightarrow> Some ((500, Message ''Failed to fetch slot statuses''), st3)
            | Some (Inr statuses, st3) \<Rightarrow> Some ((200, StatusesBody statuses), st3))"
proof -
  from assms(1) obtain c where "settings st orgId = Some c" by auto
  then show ?thesis
    using assms(2-) by (simp add: getSlotStatus_def ensureSettings_def Let_def)
qed

lemma getSlotStatus_no_days:
  assumes "userId u = Some orgId" and "settings st orgId \<noteq> None"
    and "\<not> (\<exists>x y days. a = Some x \<and> b = Some y \<and> x \<noteq> [] \<and> y \<noteq> [] \<and> eachDay L x y = Some days)"
  shows "map_option fst (getSlotStatus L u a b (st\<lparr>lockedDays := ld\<rparr>))
         = map_option fst (getSlotStatus L u a b st)"
proof (cases "\<exists>x y. a = Some x \<and> b = Some y \<and> x \<noteq> [] \<and> y \<noteq> []")
  case True
  then obtain x y where ab: "a = Some x" "b = Some y" "x \<noteq> []" "y \<noteq> []" by blast
  with assms(3) have "eachDay L x y = None" by simp
  moreover from assms(2) obtain c where "settings st orgId = Some c" by auto
  ultimately show ?thesis using assms(1) ab
    by (simp add: getSlotStatus_def ensureSettings_def Let_def)
next
  case False
  then have "getSlotStatus L u a b s = Some ((400, Message ''Invalid date range''), s)" for s
    using assms(1) by (cases a; cases b) (auto simp: getSlotStatus_def)
  then show ?thesis by simp
qed

lemma getSlotStatus_relock:
  assumes "settings st orgId \<noteq> None" and "userId u = Some orgId"
    and "(ld orgId = None) = (lockedDays st orgId = None)"
  shows "map_option (\<lambda>r. dropLocks (fst r)) (getSlotStatus L u a b (st\<lparr>lockedDays := ld\<rparr>))
         = map_option (\<lambda>r. dropLocks (fst r)) (getSlotStatus L u a b st)"
proof (cases "\<exists>x y days. a = Some x \<and> b = Some y \<and> x \<noteq> [] \<and> y \<noteq> [] \<and> eachDay L x y = Some days")
  case False
  from getSlotStatus_no_days [OF assms(2,1) False, of ld]
  have "map_option (\<lambda>r. dropLocks r) (map_option fst (getSlotStatus L u a b (st\<lparr>lockedDays := ld\<rparr>)))
        = map_option (\<lambda>r. dropLocks r) (map_option fst (getSlotStatus L u a b st))"
    by simp
  then show ?thesis by (simp add: option.map_comp comp_def)
next
  case True
  then obtain x y days where ab: "a = Some x" "b = Some y" and xy: "x \<noteq> []" "y \<noteq> []"
    and days: "eachDay L x y = Some days" by blast
  let ?st2 = "if timeSlots st orgId = None
              then st\<lparr>timeSlots := (timeSlots st)(orgId \<mapsto> Map.empty)\<rparr> else st"
  let ?X = "statusDays L orgId days [] (?st2\<lparr>lockedDays := ld\<rparr>)"
  let ?Y = "statusDays L orgId days [] ?st2"
  have ld2: "(ld orgId = None) = (lockedDays ?st2 orgId = None)" using assms(3) by simp
  have eq: "map_option (\<lambda>r. (map_sum id (map (\<lambda>(d, s). (d, s\<lparr>isLocked := False\<rparr>))) (fst r),
                               (snd r)\<lparr>lockedDays := ld\<rparr>)) ?X
            = map_option (\<lambda>r. (map_sum id (map (\<lambda>(d, s). (d, s\<lparr>isLocked := False\<rparr>))) (fst r),
                                 (snd r)\<lparr>lockedDays := ld\<rparr>)) ?Y"
    by (rule statusDays_relock [where ld = ld and orgId = orgId and st = ?st2, OF ld2]) simp
  have s': "settings (st\<lparr>lockedDays := ld\<rparr>) orgId \<noteq> None" using assms(1) by simp
  have st2': "(if timeSlots (st\<lparr>lockedDays := ld\<rparr>) orgId = None
               then st\<lparr>lockedDays := ld\<rparr>\<lparr>timeSlots := (timeSlots (st\<lparr>lockedDays := ld\<rparr>))(orgId \<mapsto> Map.empty)\<rparr>
               else st\<lparr>lockedDays := ld\<rparr>) = ?st2\<lparr>lockedDays := ld\<rparr>"
    by simp
  have left: "getSlotStatus L u a b (st\<lparr>lockedDays := ld\<rparr>) =
           (case ?X of
              None \<Rightarrow> None
            | Some (Inl e, st3) \<Rightarrow> Some ((500, Message ''Failed to fetch slot statuses''), st3)
            | Some (Inr statuses, st3) \<Rightarrow> Some ((200, StatusesBody statuses), st3))"
    unfolding ab getSlotStatus_days [OF s' assms(2) xy days] st2' ..
  have right: "getSlotStatus L u a b st =
           (case ?Y of
              None \<Rightarrow> None
            | Some (Inl e, st3) \<Rightarrow> Some ((500, Message ''Failed to fetch slot statuses''), st3)
            | Some (Inr statuses, st3) \<Rightarrow> Some ((200, StatusesBody statuses), st3))"
    unfolding ab getSlotStatus_days [OF assms(1,2) xy days] ..
  show ?thesis
  proof (cases ?Y)
    case None
    then have "?X = None" using eq by simp
    then show ?thesis using None left right by simp
  next
    case (Some q)
    then obtain p where X: "?X = Some p" using eq by (cases ?X) simp_all
    obtain r0 s0 where q: "q = (r0, s0)" by (cases q)
    obtain r1 s1 where p: "p = (r1, s1)" by (cases p)
    have rel: "map_sum id (map (\<lambda>(d, s). (d, s\<lparr>isLocked := False\<rparr>))) r1
               = map_sum id (map (\<lambda>(d, s). (d, s\<lparr>isLocked := False\<rparr>))) r0"
      using eq Some X p q by simp
    show ?thesis
    proof (cases r0)
      case (Inl e)
      then have "r1 = Inl e" using rel by (cases r1) simp_all
      then show ?thesis
        unfolding left right Some X p q Inl by (simp add: dropLocks_def)
    next
      case (Inr S0)
      then obtain S1 where r1: "r1 = Inr S1"
        and S: "map (\<lambda>(d, s). (d, s\<lparr>isLocked := False\<rparr>)) S1
                = map (\<lambda>(d, s). (d, s\<lparr>isLocked := False\<rparr>)) S0"
        using rel by (cases r1) simp_all
      show ?thesis
        unfolding left right Some X p q Inr r1 using S by (simp add: dropLocks_def)
    qed
  qed
qed

text \<open>What a successful lock request leaves in the stores.\<close>

lemma putLockedDay_locks:
  assumes "userId u = Some orgId" and "putLockedDay u date True st = ((200, bd), st1)"
  shows "\<exists>locked1. lockedDays st1 orgId = Some locked1 \<and> date \<in> set locked1
           \<and> lockedDays st orgId \<noteq> None
           \<and> st1 = st\<lparr>lockedDays := lockedDays st1\<rparr> \<and> settings st1 = settings st"
  using assms
  by (auto simp: putLockedDay_def split: option.splits if_splits)

text \<open>
  C7. An organization that has settings locks a date, and a sequence of requests follows
  in which it does not unlock that date. Then a status read of the organization over a
  range that has the date reports \<open>isLocked\<close> true for it, whatever its counts are. And
  locking changes no count: every status read right after the lock request is the read
  right before it, up to the lock flags.
\<close>

theorem locked_day_reported_locked:
  assumes "userId u = Some orgId" and "settings st orgId \<noteq> None"
    and "putLockedDay u date True st = ((200, bd), st1)"
    and "list_all (\<lambda>r. \<not> unlocks orgId date r) rs"
    and "run L rs st1 = Some (resps, st2)"
    and "eachDay L a b = Some days" and "date \<in> set days"
    and "getSlotStatus L u (Some a) (Some b) st2 = Some ((200, StatusesBody statuses), st3)"
  shows "(\<exists>s. map_of statuses date = Some s \<and> isLocked s)
         \<and> (\<forall>a' b'. map_option (\<lambda>r. dropLocks (fst r)) (getSlotStatus L u a' b' st1)
                      = map_option (\<lambda>r. dropLocks (fst r)) (getSlotStatus L u a' b' st))"
proof -
  from putLockedDay_locks [OF assms(1,3)] obtain locked1 where
    l1: "lockedDays st1 orgId = Some locked1" and d1: "date \<in> set locked1"
    and l0: "lockedDays st orgId \<noteq> None"
    and st1: "st1 = st\<lparr>lockedDays := lockedDays st1\<rparr>" and s1: "settings st1 = settings st"
    by blast
  have set1: "settings st1 orgId \<noteq> None" using assms(2) s1 by simp
  from run_locked [OF assms(5) set1 l1 d1 assms(4)] obtain locked2 where
    l2: "lockedDays st2 orgId = Some locked2" and d2: "date \<in> set locked2" by blast
  have set2: "settings st2 orgId \<noteq> None" using run_settings [OF assms(5) set1] .
  have l3: "lockedDays st3 orgId = Some locked2"
    using getSlotStatus_keeps(2) [OF assms(8) set2] l2 by simp
  from getSlotStatus_reports [OF assms(8,1,6)] assms(7) obtain s where
    s: "map_of statuses date = Some s" and ds: "dayStatusOf st3 orgId date = Some s" by blast
  from ds l3 d2 have "isLocked s"
    by (auto simp: dayStatusOf_def split: option.splits)
  moreover have "map_option (\<lambda>r. dropLocks (fst r)) (getSlotStatus L u a' b' st1)
                 = map_option (\<lambda>r. dropLocks (fst r)) (getSlotStatus L u a' b' st)" for a' b'
  proof -
    have "(lockedDays st1 orgId = None) = (lockedDays st orgId = None)" using l1 l0 by simp
    from getSlotStatus_relock [where ld = "lockedDays st1" and st = st and orgId = orgId and u = u
        and L = L and a = a' and b = b', OF assms(2,1) this] show ?thesis
      using st1 by simp
  qed
  ultimately show ?thesis using s by blast
qed

lemma monday_booked_from:
  "markBooked (Some \<lparr>bk_organizationId = a, bk_appointmentId = i,
                       bk_timeSlots = [\<lparr>st_start = ''09:00'', st_end = ''09:30''\<rparr>]\<rparr>)
     (map (slotAt L defaultSettings 540 n) [0..<16])
   = \<lparr>ts_id = uuidv4 L n, ts_start = ''09:00'', ts_end = ''09:30'', isAvailable = False\<rparr>
       # map (slotAt L defaultSettings 540 n) [1..<16]"
  by (simp add: markBooked_def isBooked_def upt_rec slotAt_def stepMinutes_def
      defaultSettings_def formatHHmm_def pad2_def digitChar_def)

theorem locked_day_reported_locked_witness:
  "userId org1 = Some ''org1''
   \<and> settings (initializeOrganizationSettings ''org1'' emptyStore) ''org1'' \<noteq> None
   \<and> putLockedDay org1 ''2024-01-15'' True (initializeOrganizationSettings ''org1'' emptyStore)
       = ((200, LockedBody ''2024-01-15'' True),
          (initializeOrganizationSettings ''org1'' emptyStore)
            \<lparr>lockedDays := [''org1'' \<mapsto> [''2024-01-15'']]\<rparr>)
   \<and> list_all (\<lambda>r. \<not> unlocks ''org1'' ''2024-01-15'' r) [CreateAppointment ind1 booking1]
   \<and> fst (fst (createAppointment utcLib ind1 booking1
                  ((initializeOrganizationSettings ''org1'' emptyStore)
                     \<lparr>lockedDays := [''org1'' \<mapsto> [''2024-01-15'']]\<rparr>))) = 201
   \<and> eachDay utcLib ''2024-01-15'' ''2024-01-15'' = Some [''2024-01-15'']
   \<and> map_option fst
        (getSlotStatus utcLib org1 (Some ''2024-01-15'') (Some ''2024-01-15'')
           (snd (createAppointment utcLib ind1 booking1
                   ((initializeOrganizationSettings ''org1'' emptyStore)
                      \<lparr>lockedDays := [''org1'' \<mapsto> [''2024-01-15'']]\<rparr>))))
       = Some (200, StatusesBody [(''2024-01-15'',
                  \<lparr>isLocked = True, availableSlots = 15, totalSlots = 16\<rparr>)])
   \<and> (\<exists>s. map_of [(''2024-01-15'', \<lparr>isLocked = True, availableSlots = 15, totalSlots = 16\<rparr>)]
              ''2024-01-15'' = Some s \<and> isLocked s)
   \<and> map_option (\<lambda>r. dropLocks (fst r))
        (getSlotStatus utcLib org1 (Some ''2024-01-15'') (Some ''2024-01-15'')
           ((initializeOrganizationSettings ''org1'' emptyStore)
              \<lparr>lockedDays := [''org1'' \<mapsto> [''2024-01-15'']]\<rparr>))
       = map_option (\<lambda>r. dropLocks (fst r))
           (getSlotStatus utcLib org1 (Some ''2024-01-15'') (Some ''2024-01-15'')
              (initializeOrganizationSettings ''org1'' emptyStore))"
proof -
  let ?d = "''2024-01-15''"
  let ?S = "initializeOrganizationSettings ''org1'' emptyStore"
  let ?S1 = "?S\<lparr>lockedDays := [''org1'' \<mapsto> [?d]]\<rparr>"
  let ?c = "createAppointment utcLib ind1 booking1 ?S1"
  let ?S2 = "snd ?c"
  let ?statuses = "[(?d, \<lparr>isLocked = True, availableSlots = 15, totalSlots = 16\<rparr>)]"
  have h2: "settings ?S ''org1'' \<noteq> None"
    by (simp add: initializeOrganizationSettings_def)
  have h3: "putLockedDay org1 ?d True ?S = ((200, LockedBody ?d True), ?S1)"
    by (simp add: putLockedDay_def org1_id initializeOrganizationSettings_def emptyStore_def)
  have h4: "list_all (\<lambda>r. \<not> unlocks ''org1'' ?d r) [CreateAppointment ind1 booking1]"
    by (simp add: unlocks_def)
  have free: "bookedSlots ?S1 ?d = None"
    by (simp add: initializeOrganizationSettings_def emptyStore_def)
  have created: "fst (fst ?c) = 201" using free by (rule createAppointment_free_day)
  have h5: "run utcLib [CreateAppointment ind1 booking1] ?S1 = Some ([fst ?c], ?S2)"
    by (simp add: split_beta)
  have S2: "?S2 = ?S1\<lparr>appointments := appointments ?S2,
                        bookedSlots := [?d \<mapsto> \<lparr>bk_organizationId = ''org1'',
                                                bk_appointmentId = uuidv4 utcLib 0,
                                                bk_timeSlots = [\<lparr>st_start = ''09:00'', st_end = ''09:30''\<rparr>]\<rparr>],
                        uuids := 1, randoms := 1\<rparr>"
    using utcLib_ymd booking1_schema [of "''org1''"]
    by (simp add: createAppointment_def ind1_def booking1_def Let_def
        initializeOrganizationSettings_def emptyStore_def)
  have read: "getSlotStatus utcLib org1 (Some ?d) (Some ?d) ?S2
              = Some ((200, StatusesBody ?statuses),
                      snd (the (getSlotStatus utcLib org1 (Some ?d) (Some ?d) ?S2)))"
    apply (subst (1 2) S2)
    apply (simp add: getSlotStatus_def org1_id ensureSettings_def utcLib_one_day statusDay_def
        generateFor_def generate_monday monday_booked_from monday_available
        initializeOrganizationSettings_def emptyStore_def Let_def del: upt_Suc)
    done
  have h6: "map_option fst (getSlotStatus utcLib org1 (Some ?d) (Some ?d) ?S2)
            = Some (200, StatusesBody ?statuses)"
    by (subst read) simp
  note main = locked_day_reported_locked [OF org1_id h2 h3 h4 h5 utcLib_one_day _ read]
  have m1: "\<exists>s. map_of ?statuses ?d = Some s \<and> isLocked s"
    using main by simp
  have m2: "map_option (\<lambda>r. dropLocks (fst r)) (getSlotStatus utcLib org1 (Some ?d) (Some ?d) ?S1)
            = map_option (\<lambda>r. dropLocks (fst r)) (getSlotStatus utcLib org1 (Some ?d) (Some ?d) ?S)"
    using main by simp
  show ?thesis
    using org1_id h2 h3 h4 created utcLib_one_day h6 m1 m2 by blast
qed

end
